theory Spec2Isabelle
  imports Complex_Main
begin

section \<open>K-armed bandits: the slot-machine environment and its agents\<close>

text \<open>
  A shallow embedding of the notebook \<^verbatim>\<open>3.8.1_k_armed_bandits_in_action.ipynb\<close>.

  Conventions of the embedding.
  \<^item> Python floats and NumPy \<^verbatim>\<open>float64\<close> values are idealised as \<open>real\<close>: rounding is
    not modelled. Python integers that come out of \<^verbatim>\<open>len\<close> are \<open>nat\<close>, arm indices
    handed to \<^verbatim>\<open>pull\<close> and the step budget are \<open>int\<close>.
  \<^item> Exceptions are values: an operation on a sequence returns \<open>py_error + 'a\<close>, \<open>Inl\<close> the
    exception; an operation on the world returns \<open>'a result\<close>, where the exception comes
    with the world as it is when the exception is raised.
  \<^item> The two process-wide random generators (NumPy's and the one of Python's
    \<^verbatim>\<open>random\<close> module) are part of an explicit \<open>world\<close>: each generator is a tape of the
    values its successive calls return, with a position that every call advances by one.
  \<^item> The environment object shared by the agents and the notebook's global variable
    \<^verbatim>\<open>rewards\<close> live in the same \<open>world\<close>, which every operation takes and returns.
\<close>

subsection \<open>Exceptions and Python sequences\<close>

datatype py_error = IndexError | ValueError | ZeroDivisionError

text \<open>\<^verbatim>\<open>xs[i]\<close> on a Python list or a NumPy array: a negative index counts from the end,
  an index outside \<open>[-len, len)\<close> raises \<^verbatim>\<open>IndexError\<close>.\<close>

definition py_index :: "'a list \<Rightarrow> int \<Rightarrow> py_error + nat" where
  "py_index xs i =
     (let n = int (length xs); j = (if i < 0 then n + i else i)
      in if 0 \<le> j \<and> j < n then Inr (nat j) else Inl IndexError)"

definition getitem :: "'a list \<Rightarrow> int \<Rightarrow> py_error + 'a" where
  "getitem xs i = (case py_index xs i of Inl e \<Rightarrow> Inl e | Inr j \<Rightarrow> Inr (xs ! j))"

text \<open>\<^verbatim>\<open>xs[i] = v\<close> and \<^verbatim>\<open>xs[i] += v\<close> on a NumPy array.\<close>

definition setitem :: "'a list \<Rightarrow> int \<Rightarrow> 'a \<Rightarrow> py_error + 'a list" where
  "setitem xs i v = (case py_index xs i of Inl e \<Rightarrow> Inl e | Inr j \<Rightarrow> Inr (xs[j := v]))"

definition iadd_item :: "real list \<Rightarrow> int \<Rightarrow> real \<Rightarrow> py_error + real list" where
  "iadd_item xs i v =
     (case getitem xs i of Inl e \<Rightarrow> Inl e | Inr x \<Rightarrow> setitem xs i (x + v))"

text \<open>\<^verbatim>\<open>np.zeros(k)\<close>.\<close>

definition np_zeros :: "nat \<Rightarrow> real list" where
  "np_zeros k = replicate k 0"

text \<open>\<^verbatim>\<open>sum(xs)/len(xs)\<close>: true division, \<^verbatim>\<open>ZeroDivisionError\<close> on an empty list.\<close>

definition mean :: "real list \<Rightarrow> py_error + real" where
  "mean xs = (if length xs = 0 then Inl ZeroDivisionError
              else Inr (sum_list xs / real (length xs)))"

text \<open>\<^verbatim>\<open>range(n)\<close>: empty when \<open>n \<le> 0\<close>.\<close>

definition py_range :: "int \<Rightarrow> nat list" where
  "py_range n = [0..<nat n]"

text \<open>A \<^verbatim>\<open>for\<close> loop over a sequence, threading the loop's state; an exception raised by
  the body leaves the loop.\<close>

primrec for_each :: "'a list \<Rightarrow> ('a \<Rightarrow> 's \<Rightarrow> 'e + 's) \<Rightarrow> 's \<Rightarrow> 'e + 's" where
  "for_each [] body s = Inr s"
| "for_each (x # xs) body s =
     (case body x s of Inl e \<Rightarrow> Inl e | Inr s' \<Rightarrow> for_each xs body s')"

text \<open>\<^verbatim>\<open>np.argmax\<close> on a one-dimensional array without NaN: a left-to-right scan that
  replaces the running maximum only by a strictly greater entry, \<^verbatim>\<open>ValueError\<close> on an
  empty array.\<close>

fun argmax_scan :: "real list \<Rightarrow> nat \<Rightarrow> nat \<Rightarrow> real \<Rightarrow> nat" where
  "argmax_scan [] i best m = best"
| "argmax_scan (x # xs) i best m =
     (if x > m then argmax_scan xs (Suc i) i x else argmax_scan xs (Suc i) best m)"

definition np_argmax :: "real list \<Rightarrow> py_error + nat" where
  "np_argmax xs = (case xs of [] \<Rightarrow> Inl ValueError | x # rest \<Rightarrow> Inr (argmax_scan rest 1 0 x))"

subsection \<open>The environment and the world\<close>

record SlotMachineEnvironment =
  reward_probabilities :: "real list"
  rewards :: "real list"
  k_arms :: nat

text \<open>\<^verbatim>\<open>SlotMachineEnvironment.__init__\<close>: stores both vectors as given and takes
  \<^verbatim>\<open>k_arms\<close> from \<^verbatim>\<open>rewards\<close>; nothing is checked.\<close>

definition SlotMachineEnvironment_init :: "real list \<Rightarrow> real list \<Rightarrow> SlotMachineEnvironment" where
  "SlotMachineEnvironment_init probs rs =
     \<lparr>reward_probabilities = probs, rewards = rs, k_arms = length rs\<rparr>"

record world =
  base_environment :: SlotMachineEnvironment
  global_rewards :: "real list"
  np_pos :: nat
  np_random_tape :: "nat \<Rightarrow> real"
  np_choice_tape :: "nat \<Rightarrow> nat \<Rightarrow> nat"
  py_pos :: nat
  betavariate_tape :: "nat \<Rightarrow> real \<Rightarrow> real \<Rightarrow> real"

type_synonym 'a result = "(py_error \<times> world) + ('a \<times> world)"

text \<open>The world a computation leaves behind, whether it returns or raises.\<close>

definition final_world :: "('e \<times> world) + ('a \<times> world) \<Rightarrow> world" where
  "final_world r = (case r of Inl (e, w) \<Rightarrow> w | Inr (x, w) \<Rightarrow> w)"

text \<open>\<^verbatim>\<open>np.random.random()\<close>: the next value of NumPy's generator.\<close>

definition np_random_random :: "world \<Rightarrow> real \<times> world" where
  "np_random_random w = (np_random_tape w (np_pos w), w\<lparr>np_pos := Suc (np_pos w)\<rparr>)"

text \<open>\<^verbatim>\<open>np.random.choice(a)\<close> for an integer \<open>a\<close>: \<^verbatim>\<open>ValueError\<close> unless \<open>a > 0\<close>.\<close>

definition np_random_choice :: "nat \<Rightarrow> world \<Rightarrow> nat result" where
  "np_random_choice a w =
     (if a = 0 then Inl (ValueError, w)
      else Inr (np_choice_tape w (np_pos w) a, w\<lparr>np_pos := Suc (np_pos w)\<rparr>))"

text \<open>\<^verbatim>\<open>random.betavariate(alpha, beta)\<close>: \<^verbatim>\<open>ValueError\<close> unless both parameters are
  positive.\<close>

definition random_betavariate :: "real \<Rightarrow> real \<Rightarrow> world \<Rightarrow> real result" where
  "random_betavariate alpha beta w =
     (if alpha \<le> 0 \<or> beta \<le> 0 then Inl (ValueError, w)
      else Inr (betavariate_tape w (py_pos w) alpha beta, w\<lparr>py_pos := Suc (py_pos w)\<rparr>))"

text \<open>What the libraries promise about the generators: a uniform sample lies in \<open>[0,1)\<close>,
  a choice among \<open>a\<close> lies in \<open>[0,a)\<close>, a Beta sample lies in \<open>[0,1]\<close>.\<close>

definition rng_ok :: "world \<Rightarrow> bool" where
  "rng_ok w \<longleftrightarrow>
     (\<forall>n. 0 \<le> np_random_tape w n \<and> np_random_tape w n < 1) \<and>
     (\<forall>n a. 0 < a \<longrightarrow> np_choice_tape w n a < a) \<and>
     (\<forall>n a b. 0 < a \<and> 0 < b \<longrightarrow>
        0 \<le> betavariate_tape w n a b \<and> betavariate_tape w n a b \<le> 1)"

text \<open>The length invariant of the data model.\<close>

definition env_ok :: "SlotMachineEnvironment \<Rightarrow> bool" where
  "env_ok e \<longleftrightarrow>
     length (reward_probabilities e) = length (rewards e) \<and> length (rewards e) = k_arms e"

text \<open>\<^verbatim>\<open>SlotMachineEnvironment.pull\<close>. The sample is drawn first, then the probability is
  read; the payout is read only on success.\<close>

definition pull :: "int \<Rightarrow> world \<Rightarrow> real result" where
  "pull arm w =
     (case np_random_random w of (u, w1) \<Rightarrow>
        (case getitem (reward_probabilities (base_environment w1)) arm of
           Inl e \<Rightarrow> Inl (e, w1)
         | Inr p \<Rightarrow>
             if u < p
             then (case getitem (rewards (base_environment w1)) arm of
                     Inl e \<Rightarrow> Inl (e, w1)
                   | Inr r \<Rightarrow> Inr (r, w1))
             else Inr (0, w1)))"

subsection \<open>RandomAgent\<close>

text \<open>An agent refers to the shared environment of the world; of its own it holds the
  step budget (and \<^verbatim>\<open>epsilon\<close>).\<close>

record RandomAgent =
  ra_steps :: int

record ra_locals =
  ra_count_of_arms_pulled :: "real list"
  ra_rewards_obtained :: "real list"
  ra_cumulative_rewards :: "real list"

text \<open>One iteration of \<^verbatim>\<open>RandomAgent.step\<close>. The name \<^verbatim>\<open>rewards\<close> in its last statement
  is not a local of the method: it is the notebook's global variable.\<close>

definition RandomAgent_body :: "ra_locals \<times> world \<Rightarrow> (py_error \<times> world) + (ra_locals \<times> world)" where
  "RandomAgent_body sw =
     (case sw of (s, w) \<Rightarrow>
        (case np_random_choice (k_arms (base_environment w)) w of
           Inl ew \<Rightarrow> Inl ew
         | Inr (arm_to_pull, w1) \<Rightarrow>
        (case pull (int arm_to_pull) w1 of
           Inl ew \<Rightarrow> Inl ew
         | Inr (reward, w2) \<Rightarrow>
        (case iadd_item (ra_count_of_arms_pulled s) (int arm_to_pull) 1 of
           Inl e \<Rightarrow> Inl (e, w2)
         | Inr counts \<Rightarrow>
        (case mean (global_rewards w2) of
           Inl e \<Rightarrow> Inl (e, w2)
         | Inr avg \<Rightarrow>
             Inr (\<lparr>ra_count_of_arms_pulled = counts,
                   ra_rewards_obtained = ra_rewards_obtained s @ [reward],
                   ra_cumulative_rewards = ra_cumulative_rewards s @ [avg]\<rparr>, w2))))))"

definition RandomAgent_init_locals :: "world \<Rightarrow> ra_locals" where
  "RandomAgent_init_locals w =
     \<lparr>ra_count_of_arms_pulled = np_zeros (k_arms (base_environment w)),
      ra_rewards_obtained = [],
      ra_cumulative_rewards = []\<rparr>"

definition RandomAgent_loop :: "RandomAgent \<Rightarrow> world \<Rightarrow> ra_locals result" where
  "RandomAgent_loop self w =
     for_each (py_range (ra_steps self)) (\<lambda>_. RandomAgent_body) (RandomAgent_init_locals w, w)"

definition RandomAgent_step ::
  "RandomAgent \<Rightarrow> world \<Rightarrow> (real list \<times> real list \<times> real list) result" where
  "RandomAgent_step self w =
     (case RandomAgent_loop self w of
        Inl ew \<Rightarrow> Inl ew
      | Inr (s, w') \<Rightarrow>
          Inr ((ra_count_of_arms_pulled s, ra_rewards_obtained s, ra_cumulative_rewards s), w'))"

subsection \<open>EpsilonGreedyAgent\<close>

record EpsilonGreedyAgent =
  eg_steps :: int
  epsilon :: real

record eg_locals =
  q_values :: "real list"
  rewards_obtained_per_arm :: "real list"
  eg_count_of_arms_pulled :: "real list"
  eg_rewards :: "real list"
  eg_cumulative_rewards :: "real list"

text \<open>The choice of the arm: explore when the sample is below \<^verbatim>\<open>epsilon\<close>, else exploit.\<close>

definition eg_select :: "real \<Rightarrow> nat \<Rightarrow> real list \<Rightarrow> world \<Rightarrow> nat result" where
  "eg_select eps k q w =
     (case np_random_random w of (u, w1) \<Rightarrow>
        if u < eps then np_random_choice k w1
        else (case np_argmax q of Inl e \<Rightarrow> Inl (e, w1) | Inr a \<Rightarrow> Inr (a, w1)))"

text \<open>The bookkeeping after the pull. The quotient is a \<^verbatim>\<open>float64\<close> division, which does
  not raise; its divisor has just been incremented.\<close>

definition eg_update :: "eg_locals \<Rightarrow> nat \<Rightarrow> real \<Rightarrow> py_error + eg_locals" where
  "eg_update s arm_to_pull reward =
     (case iadd_item (rewards_obtained_per_arm s) (int arm_to_pull) reward of
        Inl e \<Rightarrow> Inl e
      | Inr per_arm \<Rightarrow>
     (case iadd_item (eg_count_of_arms_pulled s) (int arm_to_pull) 1 of
        Inl e \<Rightarrow> Inl e
      | Inr counts \<Rightarrow>
     (case getitem per_arm (int arm_to_pull) of
        Inl e \<Rightarrow> Inl e
      | Inr x \<Rightarrow>
     (case getitem counts (int arm_to_pull) of
        Inl e \<Rightarrow> Inl e
      | Inr c \<Rightarrow>
     (case setitem (q_values s) (int arm_to_pull) (x / c) of
        Inl e \<Rightarrow> Inl e
      | Inr q \<Rightarrow>
     (case mean (eg_rewards s @ [reward]) of
        Inl e \<Rightarrow> Inl e
      | Inr avg \<Rightarrow>
          Inr \<lparr>q_values = q,
               rewards_obtained_per_arm = per_arm,
               eg_count_of_arms_pulled = counts,
               eg_rewards = eg_rewards s @ [reward],
               eg_cumulative_rewards = eg_cumulative_rewards s @ [avg]\<rparr>))))))"

definition EpsilonGreedyAgent_body ::
  "real \<Rightarrow> nat \<Rightarrow> eg_locals \<times> world \<Rightarrow> (py_error \<times> world) + (eg_locals \<times> world)" where
  "EpsilonGreedyAgent_body eps k sw =
     (case sw of (s, w) \<Rightarrow>
        (case eg_select eps k (q_values s) w of
           Inl ew \<Rightarrow> Inl ew
         | Inr (arm_to_pull, w1) \<Rightarrow>
        (case pull (int arm_to_pull) w1 of
           Inl ew \<Rightarrow> Inl ew
         | Inr (reward, w2) \<Rightarrow>
        (case eg_update s arm_to_pull reward of
           Inl e \<Rightarrow> Inl (e, w2)
         | Inr s' \<Rightarrow> Inr (s', w2)))))"

definition EpsilonGreedyAgent_init_locals :: "nat \<Rightarrow> eg_locals" where
  "EpsilonGreedyAgent_init_locals k =
     \<lparr>q_values = np_zeros k,
      rewards_obtained_per_arm = np_zeros k,
      eg_count_of_arms_pulled = np_zeros k,
      eg_rewards = [],
      eg_cumulative_rewards = []\<rparr>"

definition EpsilonGreedyAgent_loop :: "EpsilonGreedyAgent \<Rightarrow> world \<Rightarrow> eg_locals result" where
  "EpsilonGreedyAgent_loop self w =
     (let k = k_arms (base_environment w)
      in for_each (py_range (eg_steps self)) (\<lambda>_. EpsilonGreedyAgent_body (epsilon self) k)
           (EpsilonGreedyAgent_init_locals k, w))"

definition EpsilonGreedyAgent_step ::
  "EpsilonGreedyAgent \<Rightarrow> world \<Rightarrow> (real list \<times> real list \<times> real list) result" where
  "EpsilonGreedyAgent_step self w =
     (case EpsilonGreedyAgent_loop self w of
        Inl ew \<Rightarrow> Inl ew
      | Inr (s, w') \<Rightarrow>
          Inr ((eg_count_of_arms_pulled s, eg_rewards s, eg_cumulative_rewards s), w'))"

subsection \<open>ThompsonSamplingAgent\<close>

record ThompsonSamplingAgent =
  ts_steps :: int

record ts_locals =
  ts_count_of_arms_pulled :: "real list"
  ts_rewards_obtained :: "real list"
  failures :: "real list"
  ts_cumulative_rewards :: "real list"
  total_rewards :: "real list"

text \<open>One iteration of the inner loop over the arms; its state is
  \<^verbatim>\<open>(arm_to_pull, beta_max)\<close> and the world.\<close>

definition ts_scan_body ::
  "ts_locals \<Rightarrow> nat \<Rightarrow> (nat \<times> real) \<times> world \<Rightarrow> (py_error \<times> world) + ((nat \<times> real) \<times> world)" where
  "ts_scan_body s j st =
     (case st of ((arm_to_pull, beta_max), w) \<Rightarrow>
        (case getitem (ts_rewards_obtained s) (int j) of
           Inl e \<Rightarrow> Inl (e, w)
         | Inr a \<Rightarrow>
        (case getitem (failures s) (int j) of
           Inl e \<Rightarrow> Inl (e, w)
         | Inr b \<Rightarrow>
        (case random_betavariate (a + 1) (b + 1) w of
           Inl ew \<Rightarrow> Inl ew
         | Inr (beta_d, w1) \<Rightarrow>
             if beta_d > beta_max then Inr ((j, beta_d), w1)
             else Inr ((arm_to_pull, beta_max), w1)))))"

definition ts_select :: "nat \<Rightarrow> ts_locals \<Rightarrow> world \<Rightarrow> (nat \<times> real) result" where
  "ts_select k s w = for_each [0..<k] (ts_scan_body s) ((0, 0), w)"

text \<open>The Bernoulli outcome of the pull and the running average of the raw rewards.\<close>

definition ts_record :: "ts_locals \<Rightarrow> nat \<Rightarrow> real \<Rightarrow> py_error + ts_locals" where
  "ts_record s arm_to_pull reward =
     (case (if reward > 90
            then (case iadd_item (ts_rewards_obtained s) (int arm_to_pull) 1 of
                    Inl e \<Rightarrow> Inl e
                  | Inr a \<Rightarrow> Inr (a, failures s))
            else (case iadd_item (failures s) (int arm_to_pull) 1 of
                    Inl e \<Rightarrow> Inl e
                  | Inr b \<Rightarrow> Inr (ts_rewards_obtained s, b))) of
        Inl e \<Rightarrow> Inl e
      | Inr (a, b) \<Rightarrow>
     (case mean (total_rewards s @ [reward]) of
        Inl e \<Rightarrow> Inl e
      | Inr avg \<Rightarrow>
          Inr (s\<lparr>ts_rewards_obtained := a,
                 failures := b,
                 total_rewards := total_rewards s @ [reward],
                 ts_cumulative_rewards := ts_cumulative_rewards s @ [avg]\<rparr>)))"

definition ThompsonSamplingAgent_body ::
  "nat \<Rightarrow> ts_locals \<times> world \<Rightarrow> (py_error \<times> world) + (ts_locals \<times> world)" where
  "ThompsonSamplingAgent_body k sw =
     (case sw of (s, w) \<Rightarrow>
        (case ts_select k s w of
           Inl ew \<Rightarrow> Inl ew
         | Inr ((arm_to_pull, beta_max), w1) \<Rightarrow>
        (case iadd_item (ts_count_of_arms_pulled s) (int arm_to_pull) 1 of
           Inl e \<Rightarrow> Inl (e, w1)
         | Inr counts \<Rightarrow>
        (case pull (int arm_to_pull) w1 of
           Inl ew \<Rightarrow> Inl ew
         | Inr (reward, w2) \<Rightarrow>
        (case ts_record (s\<lparr>ts_count_of_arms_pulled := counts\<rparr>) arm_to_pull reward of
           Inl e \<Rightarrow> Inl (e, w2)
         | Inr s' \<Rightarrow> Inr (s', w2))))))"

definition ThompsonSamplingAgent_init_locals :: "nat \<Rightarrow> ts_locals" where
  "ThompsonSamplingAgent_init_locals k =
     \<lparr>ts_count_of_arms_pulled = np_zeros k,
      ts_rewards_obtained = np_zeros k,
      failures = np_zeros k,
      ts_cumulative_rewards = [],
      total_rewards = []\<rparr>"

definition ThompsonSamplingAgent_loop :: "ThompsonSamplingAgent \<Rightarrow> world \<Rightarrow> ts_locals result" where
  "ThompsonSamplingAgent_loop self w =
     (let k = k_arms (base_environment w)
      in for_each (py_range (ts_steps self)) (\<lambda>_. ThompsonSamplingAgent_body k)
           (ThompsonSamplingAgent_init_locals k, w))"

definition ThompsonSamplingAgent_step ::
  "ThompsonSamplingAgent \<Rightarrow> world \<Rightarrow> (real list \<times> real list \<times> real list) result" where
  "ThompsonSamplingAgent_step self w =
     (case ThompsonSamplingAgent_loop self w of
        Inl ew \<Rightarrow> Inl ew
      | Inr (s, w') \<Rightarrow>
          Inr ((ts_count_of_arms_pulled s, ts_rewards_obtained s, ts_cumulative_rewards s), w'))"

subsection \<open>Properties used in the statements\<close>

text \<open>Index \<open>a\<close> is the first position of the largest entry of \<open>xs\<close>.\<close>

definition first_max :: "real list \<Rightarrow> nat \<Rightarrow> bool" where
  "first_max xs a \<longleftrightarrow>
     a < length xs \<and> (\<forall>x \<in> set xs. x \<le> xs ! a) \<and> (\<forall>x \<in> set (take a xs). x < xs ! a)"

text \<open>The Beta samples of one Thompson step, in the order of the arms: the sample of
  arm \<open>j\<close> is the \<open>j\<close>-th value after the generator's position, with the parameters
  \<open>(successes[j] + 1, failures[j] + 1)\<close>.\<close>

definition ts_samples :: "nat \<Rightarrow> ts_locals \<Rightarrow> world \<Rightarrow> real list" where
  "ts_samples k s w =
     map (\<lambda>j. betavariate_tape w (py_pos w + j)
                (ts_rewards_obtained s ! j + 1) (failures s ! j + 1)) [0..<k]"

text \<open>The pairs \<open>(arm, reward)\<close> of the first \<open>n\<close> iterations of the epsilon-greedy loop
  that starts in the given locals and world.\<close>

fun eg_history :: "nat \<Rightarrow> real \<Rightarrow> nat \<Rightarrow> eg_locals \<Rightarrow> world \<Rightarrow> (nat \<times> real) list" where
  "eg_history 0 eps k s w = []"
| "eg_history (Suc n) eps k s w =
     (case eg_select eps k (q_values s) w of
        Inl ew \<Rightarrow> []
      | Inr (arm_to_pull, w1) \<Rightarrow>
     (case pull (int arm_to_pull) w1 of
        Inl ew \<Rightarrow> []
      | Inr (reward, w2) \<Rightarrow>
     (case eg_update s arm_to_pull reward of
        Inl e \<Rightarrow> []
      | Inr s' \<Rightarrow> (arm_to_pull, reward) # eg_history n eps k s' w2)))"

subsection \<open>Invariants of the loops\<close>

text \<open>The part of the world that no operation writes: everything but the positions of the
  two generators.\<close>

definition fixed_part ::
  "world \<Rightarrow> SlotMachineEnvironment \<times> real list \<times> (nat \<Rightarrow> real) \<times> (nat \<Rightarrow> nat \<Rightarrow> nat)
     \<times> (nat \<Rightarrow> real \<Rightarrow> real \<Rightarrow> real)" where
  "fixed_part w =
     (base_environment w, global_rewards w, np_random_tape w, np_choice_tape w,
      betavariate_tape w)"

text \<open>A world whose generators keep their promises and whose environment has \<open>k\<close> arms
  and satisfies the length invariant.\<close>

definition world_ok :: "nat \<Rightarrow> world \<Rightarrow> bool" where
  "world_ok k w \<longleftrightarrow> rng_ok w \<and> env_ok (base_environment w) \<and> k_arms (base_environment w) = k"

definition nonneg :: "real list \<Rightarrow> bool" where
  "nonneg xs \<longleftrightarrow> (\<forall>x \<in> set xs. 0 \<le> x)"

text \<open>After \<open>n\<close> iterations of an agent's loop: the arrays have one entry per arm, the pull
  counts add up to \<open>n\<close>, and the per-step lists have \<open>n\<close> entries.\<close>

definition ra_inv :: "nat \<Rightarrow> real list \<Rightarrow> nat \<Rightarrow> ra_locals \<times> world \<Rightarrow> bool" where
  "ra_inv k g n sw \<longleftrightarrow>
     (case sw of (s, w) \<Rightarrow>
        world_ok k w \<and> global_rewards w = g \<and>
        length (ra_count_of_arms_pulled s) = k \<and>
        sum_list (ra_count_of_arms_pulled s) = real n \<and>
        length (ra_rewards_obtained s) = n \<and>
        length (ra_cumulative_rewards s) = n)"

definition eg_inv :: "nat \<Rightarrow> nat \<Rightarrow> eg_locals \<times> world \<Rightarrow> bool" where
  "eg_inv k n sw \<longleftrightarrow>
     (case sw of (s, w) \<Rightarrow>
        world_ok k w \<and>
        length (q_values s) = k \<and>
        length (rewards_obtained_per_arm s) = k \<and>
        length (eg_count_of_arms_pulled s) = k \<and>
        sum_list (eg_count_of_arms_pulled s) = real n \<and>
        length (eg_rewards s) = n \<and>
        length (eg_cumulative_rewards s) = n)"

definition ts_inv :: "nat \<Rightarrow> nat \<Rightarrow> ts_locals \<times> world \<Rightarrow> bool" where
  "ts_inv k n sw \<longleftrightarrow>
     (case sw of (s, w) \<Rightarrow>
        world_ok k w \<and>
        length (ts_count_of_arms_pulled s) = k \<and>
        length (ts_rewards_obtained s) = k \<and>
        length (failures s) = k \<and>
        nonneg (ts_rewards_obtained s) \<and>
        nonneg (failures s) \<and>
        (\<forall>i<k. ts_rewards_obtained s ! i + failures s ! i = ts_count_of_arms_pulled s ! i) \<and>
        sum_list (ts_count_of_arms_pulled s) = real n \<and>
        length (total_rewards s) = n \<and>
        length (ts_cumulative_rewards s) = n)"

text \<open>What the scan knows after the samples \<open>ys\<close>: \<open>m\<close> bounds them, and either nothing
  has exceeded the initial \<open>0\<close> or \<open>a\<close> is the first position of \<open>m\<close>.\<close>

definition scan_inv :: "real list \<Rightarrow> nat \<Rightarrow> real \<Rightarrow> bool" where
  "scan_inv ys a m \<longleftrightarrow>
     (\<forall>x \<in> set ys. x \<le> m) \<and>
     ((m = 0 \<and> a = 0) \<or> (a < length ys \<and> ys ! a = m \<and> (\<forall>x \<in> set (take a ys). x < m)))"

subsection \<open>A small world for concrete runs\<close>

text \<open>Two arms: arm 0 always pays 100, arm 1 never pays its 20. The uniform samples are all
  \<open>1/2\<close>, the choices among \<open>a\<close> alternate between \<open>0\<close> and \<open>a - 1\<close>, a Beta sample with first parameter \<open>a\<close> is
  \<open>1 / (1 + a)\<close>.\<close>

definition demo_env :: SlotMachineEnvironment where
  "demo_env = SlotMachineEnvironment_init [1, 0] [100, 20]"

definition demo_world :: world where
  "demo_world =
     \<lparr>base_environment = demo_env,
      global_rewards = [100, 20],
      np_pos = 0,
      np_random_tape = (\<lambda>n. 1/2),
      np_choice_tape = (\<lambda>n a. if even n then 0 else a - 1),
      py_pos = 0,
      betavariate_tape = (\<lambda>n a b. 1 / (1 + a))\<rparr>"

text \<open>The same world with another sequence of uniform samples.\<close>

definition demo_world2 :: world where
  "demo_world2 = demo_world\<lparr>np_random_tape := (\<lambda>n. 1/4)\<rparr>"

text \<open>The small world around environments the constructor accepts although their vectors
  differ in length: one probability for two payouts, and three probabilities for two
  payouts.\<close>

definition short_probs_world :: world where
  "short_probs_world = demo_world\<lparr>base_environment := SlotMachineEnvironment_init [1/2] [1, 2]\<rparr>"

definition long_probs_world :: world where
  "long_probs_world =
     demo_world\<lparr>base_environment := SlotMachineEnvironment_init [1, 0, 1] [100, 20]\<rparr>"

section \<open>Auxiliary facts\<close>

subsection \<open>Sequences\<close>

lemma py_index_nat: "i < length xs \<Longrightarrow> py_index xs (int i) = Inr i"
  by (simp add: py_index_def)

lemma getitem_nat: "i < length xs \<Longrightarrow> getitem xs (int i) = Inr (xs ! i)"
  by (simp add: getitem_def py_index_nat)

lemma setitem_nat: "i < length xs \<Longrightarrow> setitem xs (int i) v = Inr (xs[i := v])"
  by (simp add: setitem_def py_index_nat)

lemma iadd_item_nat: "i < length xs \<Longrightarrow> iadd_item xs (int i) v = Inr (xs[i := xs ! i + v])"
  by (simp add: iadd_item_def getitem_nat setitem_nat)

lemma py_index_neg:
  "- int (length xs) \<le> i \<Longrightarrow> i < 0 \<Longrightarrow> py_index xs i = py_index xs (int (length xs) + i)"
  by (simp add: py_index_def Let_def)

lemma mean_snoc: "mean (xs @ [x]) = Inr ((sum_list xs + x) / (real (length xs) + 1))"
  by (simp add: mean_def)

lemma sum_list_bump:
  fixes xs :: "real list"
  shows "i < length xs \<Longrightarrow> sum_list (xs[i := xs ! i + v]) = sum_list xs + v"
proof (induction xs arbitrary: i)
  case Nil
  then show ?case by simp
next
  case (Cons x xs)
  then show ?case by (cases i) simp_all
qed

subsection \<open>Loops\<close>

lemma for_each_append:
  "for_each (xs @ ys) body s =
     (case for_each xs body s of Inl e \<Rightarrow> Inl e | Inr s' \<Rightarrow> for_each ys body s')"
  by (induction xs arbitrary: s) (simp_all split: sum.split)

lemma for_each_counted:
  assumes "P m s"
    and "\<And>n x s. P n s \<Longrightarrow> \<exists>s'. body x s = Inr s' \<and> P (Suc n) s'"
  shows "\<exists>s'. for_each xs body s = Inr s' \<and> P (m + length xs) s'"
  using assms(1)
proof (induction xs arbitrary: m s)
  case Nil
  then show ?case by simp
next
  case (Cons x xs)
  from assms(2)[OF Cons.prems, of x] obtain s1 where s1: "body x s = Inr s1" "P (Suc m) s1"
    by blast
  from Cons.IH[OF s1(2)] s1(1) show ?case by simp
qed

lemma length_py_range: "length (py_range n) = nat n"
  by (simp add: py_range_def)

subsection \<open>The generators and the environment\<close>

lemma rng_ok_np_pos [simp]: "rng_ok (w\<lparr>np_pos := n\<rparr>) = rng_ok w"
  by (simp add: rng_ok_def)

lemma rng_ok_py_pos [simp]: "rng_ok (w\<lparr>py_pos := n\<rparr>) = rng_ok w"
  by (simp add: rng_ok_def)

lemma rng_ok_uniform: "rng_ok w \<Longrightarrow> 0 \<le> np_random_tape w n \<and> np_random_tape w n < 1"
  by (simp add: rng_ok_def)

lemma rng_ok_choice: "rng_ok w \<Longrightarrow> 0 < a \<Longrightarrow> np_choice_tape w n a < a"
  by (simp add: rng_ok_def)

lemma rng_ok_beta: "rng_ok w \<Longrightarrow> 0 < a \<Longrightarrow> 0 < b \<Longrightarrow> 0 \<le> betavariate_tape w n a b"
  by (simp add: rng_ok_def)

lemma pull_nat:
  assumes "env_ok (base_environment w)" "a < k_arms (base_environment w)"
  shows "pull (int a) w =
     Inr (if np_random_tape w (np_pos w) < reward_probabilities (base_environment w) ! a
          then rewards (base_environment w) ! a else 0,
          w\<lparr>np_pos := Suc (np_pos w)\<rparr>)"
  using assms by (simp add: pull_def np_random_random_def env_ok_def getitem_nat)

lemma pull_world: "final_world (pull a w) = w\<lparr>np_pos := Suc (np_pos w)\<rparr>"
  by (simp add: pull_def np_random_random_def final_world_def split: sum.split)

lemma rng_demo: "rng_ok demo_world"
  by (simp add: rng_ok_def demo_world_def)

lemma env_demo: "env_ok demo_env"
  by (simp add: env_ok_def demo_env_def SlotMachineEnvironment_init_def)

subsection \<open>argmax\<close>

lemma argmax_scan_first_max:
  assumes "best < length ys" "ys ! best = m" "\<forall>x \<in> set ys. x \<le> m"
    "\<forall>x \<in> set (take best ys). x < m" "i = length ys"
  shows "first_max (ys @ xs) (argmax_scan xs i best m)"
  using assms
proof (induction xs arbitrary: ys i best m)
  case Nil
  then show ?case by (simp add: first_max_def)
next
  case (Cons x xs)
  show ?case
  proof (cases "x > m")
    case True
    have "first_max ((ys @ [x]) @ xs) (argmax_scan xs (Suc i) i x)"
    proof (rule Cons.IH)
      show "i < length (ys @ [x])" using Cons.prems(5) by simp
      show "(ys @ [x]) ! i = x" using Cons.prems(5) by simp
      show "\<forall>y \<in> set (ys @ [x]). y \<le> x" using Cons.prems(3) True by fastforce
      show "\<forall>y \<in> set (take i (ys @ [x])). y < x" using Cons.prems(3,5) True by fastforce
      show "Suc i = length (ys @ [x])" using Cons.prems(5) by simp
    qed
    with True show ?thesis by simp
  next
    case False
    have "first_max ((ys @ [x]) @ xs) (argmax_scan xs (Suc i) best m)"
    proof (rule Cons.IH)
      show "best < length (ys @ [x])" using Cons.prems(1) by simp
      show "(ys @ [x]) ! best = m" using Cons.prems(1,2) by (simp add: nth_append)
      show "\<forall>y \<in> set (ys @ [x]). y \<le> m" using Cons.prems(3) False by auto
      show "\<forall>y \<in> set (take best (ys @ [x])). y < m" using Cons.prems(1,4) by simp
      show "Suc i = length (ys @ [x])" using Cons.prems(5) by simp
    qed
    with False show ?thesis by simp
  qed
qed

lemma np_argmax_first_max:
  assumes "xs \<noteq> []"
  shows "\<exists>a. np_argmax xs = Inr a \<and> first_max xs a"
proof -
  from assms obtain x rest where xs: "xs = x # rest" by (cases xs) auto
  have "first_max ([x] @ rest) (argmax_scan rest 1 0 x)"
    by (rule argmax_scan_first_max) simp_all
  with xs show ?thesis by (simp add: np_argmax_def)
qed

lemma first_max_unique:
  assumes "first_max xs a" "first_max xs b"
  shows "a = b"
proof -
  have less: "\<not> i < j" if "first_max xs i" "first_max xs j" for i j
  proof
    assume "i < j"
    from that(2) have j: "j < length xs" "\<forall>x \<in> set (take j xs). x < xs ! j"
      by (simp_all add: first_max_def)
    from \<open>i < j\<close> j(1) have "take j xs ! i \<in> set (take j xs)"
      by (intro nth_mem) simp
    with \<open>i < j\<close> have "xs ! i \<in> set (take j xs)" by simp
    with j(2) have "xs ! i < xs ! j" by blast
    moreover from that(1) j(1) have "xs ! j \<le> xs ! i"
      by (simp add: first_max_def)
    ultimately show False by simp
  qed
  from less[OF assms] less[OF assms(2,1)] show ?thesis by simp
qed

lemma first_max_zeros: "0 < k \<Longrightarrow> first_max (np_zeros k) 0"
  by (simp add: first_max_def np_zeros_def)

subsection \<open>Epsilon-greedy: one iteration\<close>

lemma eg_select_exploit:
  assumes "\<not> np_random_tape w (np_pos w) < eps"
  shows "eg_select eps k q w =
     (case np_argmax q of
        Inl e \<Rightarrow> Inl (e, w\<lparr>np_pos := Suc (np_pos w)\<rparr>)
      | Inr a \<Rightarrow> Inr (a, w\<lparr>np_pos := Suc (np_pos w)\<rparr>))"
  using assms by (simp add: eg_select_def np_random_random_def)

lemma eg_select_ok:
  assumes "rng_ok w" "0 < k" "length q = k"
  shows "\<exists>a n. eg_select eps k q w = Inr (a, w\<lparr>np_pos := n\<rparr>) \<and> a < k"
proof (cases "np_random_tape w (np_pos w) < eps")
  case True
  then have "eg_select eps k q w =
      Inr (np_choice_tape w (Suc (np_pos w)) k, w\<lparr>np_pos := Suc (Suc (np_pos w))\<rparr>)"
    using assms(2) by (simp add: eg_select_def np_random_random_def np_random_choice_def)
  moreover have "np_choice_tape w (Suc (np_pos w)) k < k"
    using assms(1,2) by (rule rng_ok_choice)
  ultimately show ?thesis by blast
next
  case False
  from assms(2,3) have "q \<noteq> []" by auto
  from np_argmax_first_max[OF this] obtain a where a: "np_argmax q = Inr a" "first_max q a"
    by blast
  from a(2) assms(3) have "a < k" by (simp add: first_max_def)
  with eg_select_exploit[OF False, of k q] a(1) show ?thesis by auto
qed

lemma eg_update_ok:
  assumes "a < length (rewards_obtained_per_arm s)" "a < length (eg_count_of_arms_pulled s)"
    "a < length (q_values s)"
  shows "eg_update s a r =
     Inr \<lparr>q_values = (q_values s)[a := (rewards_obtained_per_arm s ! a + r)
                                        / (eg_count_of_arms_pulled s ! a + 1)],
          rewards_obtained_per_arm =
            (rewards_obtained_per_arm s)[a := rewards_obtained_per_arm s ! a + r],
          eg_count_of_arms_pulled =
            (eg_count_of_arms_pulled s)[a := eg_count_of_arms_pulled s ! a + 1],
          eg_rewards = eg_rewards s @ [r],
          eg_cumulative_rewards = eg_cumulative_rewards s
            @ [(sum_list (eg_rewards s) + r) / (real (length (eg_rewards s)) + 1)]\<rparr>"
  using assms unfolding eg_update_def
  by (simp add: iadd_item_nat getitem_nat setitem_nat mean_snoc)

lemma world_ok_np_pos [simp]: "world_ok k (w\<lparr>np_pos := n\<rparr>) = world_ok k w"
  by (simp add: world_ok_def)

lemma world_ok_py_pos [simp]: "world_ok k (w\<lparr>py_pos := n\<rparr>) = world_ok k w"
  by (simp add: world_ok_def)

lemma pull_ok:
  assumes "world_ok k w" "a < k"
  shows "\<exists>r. pull (int a) w = Inr (r, w\<lparr>np_pos := Suc (np_pos w)\<rparr>)"
  using assms pull_nat[of w a] by (simp add: world_ok_def)

lemma eg_body_ok:
  assumes "eg_inv k n sw" "0 < k"
  shows "\<exists>sw'. EpsilonGreedyAgent_body eps k sw = Inr sw' \<and> eg_inv k (Suc n) sw'"
proof -
  obtain s w where sw: "sw = (s, w)" by (cases sw)
  from assms(1) sw have w: "world_ok k w"
    and len: "length (q_values s) = k" "length (rewards_obtained_per_arm s) = k"
      "length (eg_count_of_arms_pulled s) = k"
    and cnt: "sum_list (eg_count_of_arms_pulled s) = real n"
      "length (eg_rewards s) = n" "length (eg_cumulative_rewards s) = n"
    by (simp_all add: eg_inv_def)
  from w have "rng_ok w" by (simp add: world_ok_def)
  from eg_select_ok[OF this assms(2) len(1)] obtain a m
    where sel: "eg_select eps k (q_values s) w = Inr (a, w\<lparr>np_pos := m\<rparr>)" "a < k"
    by blast
  from w have w1: "world_ok k (w\<lparr>np_pos := m\<rparr>)" by simp
  from pull_ok[OF w1 sel(2)] obtain r
    where pl: "pull (int a) (w\<lparr>np_pos := m\<rparr>) = Inr (r, w\<lparr>np_pos := Suc m\<rparr>)"
    by auto
  have upd: "eg_update s a r = Inr \<lparr>q_values = (q_values s)[a := (rewards_obtained_per_arm s ! a + r)
                                        / (eg_count_of_arms_pulled s ! a + 1)],
          rewards_obtained_per_arm =
            (rewards_obtained_per_arm s)[a := rewards_obtained_per_arm s ! a + r],
          eg_count_of_arms_pulled =
            (eg_count_of_arms_pulled s)[a := eg_count_of_arms_pulled s ! a + 1],
          eg_rewards = eg_rewards s @ [r],
          eg_cumulative_rewards = eg_cumulative_rewards s
            @ [(sum_list (eg_rewards s) + r) / (real (length (eg_rewards s)) + 1)]\<rparr>"
    (is "_ = Inr ?s'")
    by (rule eg_update_ok) (simp_all add: len sel(2))
  have body: "EpsilonGreedyAgent_body eps k sw = Inr (?s', w\<lparr>np_pos := Suc m\<rparr>)"
    by (simp add: EpsilonGreedyAgent_body_def sw sel(1) pl upd)
  have "eg_inv k (Suc n) (?s', w\<lparr>np_pos := Suc m\<rparr>)"
    using w len cnt sel(2) by (simp add: eg_inv_def sum_list_bump)
  with body show ?thesis by blast
qed

lemma eg_inv_init: "world_ok k w \<Longrightarrow> eg_inv k 0 (EpsilonGreedyAgent_init_locals k, w)"
  by (simp add: eg_inv_def EpsilonGreedyAgent_init_locals_def np_zeros_def sum_list_replicate)

lemma eg_loop_ok:
  assumes "world_ok k w" "0 < k"
  shows "\<exists>sw'. EpsilonGreedyAgent_loop self w = Inr sw' \<and> eg_inv k (nat (eg_steps self)) sw'"
proof -
  from assms(1) have k: "k_arms (base_environment w) = k" by (simp add: world_ok_def)
  have "\<exists>sw'. for_each (py_range (eg_steps self)) (\<lambda>_. EpsilonGreedyAgent_body (epsilon self) k)
           (EpsilonGreedyAgent_init_locals k, w) = Inr sw'
        \<and> eg_inv k (0 + length (py_range (eg_steps self))) sw'"
  proof (rule for_each_counted[where P = "eg_inv k"])
    show "eg_inv k 0 (EpsilonGreedyAgent_init_locals k, w)"
      using assms(1) by (rule eg_inv_init)
  next
    fix n x sw
    assume "eg_inv k n sw"
    then show "\<exists>sw'. EpsilonGreedyAgent_body (epsilon self) k sw = Inr sw' \<and> eg_inv k (Suc n) sw'"
      using assms(2) by (rule eg_body_ok)
  qed
  then show ?thesis by (simp add: EpsilonGreedyAgent_loop_def k length_py_range)
qed

lemma scan_inv_snoc_gt:
  assumes "scan_inv ys a m" "m < x"
  shows "scan_inv (ys @ [x]) (length ys) x"
  using assms by (fastforce simp: scan_inv_def)

lemma scan_inv_snoc_le:
  assumes "scan_inv ys a m" "\<not> m < x"
  shows "scan_inv (ys @ [x]) a m"
  using assms by (auto simp: scan_inv_def nth_append)

lemma scan_inv_first_max:
  assumes "scan_inv ys a m" "ys \<noteq> []" "\<forall>x \<in> set ys. 0 \<le> x"
  shows "first_max ys a"
proof (cases "a < length ys \<and> ys ! a = m \<and> (\<forall>x \<in> set (take a ys). x < m)")
  case True
  with assms(1) show ?thesis by (simp add: first_max_def scan_inv_def)
next
  case False
  with assms(1) have am: "m = 0" "a = 0" and le: "\<forall>x \<in> set ys. x \<le> 0"
    by (auto simp: scan_inv_def)
  from assms(2) have "ys ! 0 \<in> set ys" by simp
  with le assms(3) have "ys ! 0 = 0" by fastforce
  with am le assms(2) show ?thesis by (simp add: first_max_def)
qed

lemma ts_samples_length [simp]: "length (ts_samples k s w) = k"
  by (simp add: ts_samples_def)

lemma ts_samples_nth:
  "j < k \<Longrightarrow> ts_samples k s w ! j =
     betavariate_tape w (py_pos w + j) (ts_rewards_obtained s ! j + 1) (failures s ! j + 1)"
  by (simp add: ts_samples_def)

lemma ts_scan_body_ok:
  assumes "j < length (ts_rewards_obtained s)" "j < length (failures s)"
    "0 \<le> ts_rewards_obtained s ! j" "0 \<le> failures s ! j"
  shows "ts_scan_body s j ((a, m), w) =
     (let x = betavariate_tape w (py_pos w) (ts_rewards_obtained s ! j + 1) (failures s ! j + 1)
      in Inr (if x > m then (j, x) else (a, m), w\<lparr>py_pos := Suc (py_pos w)\<rparr>))"
  using assms by (simp add: ts_scan_body_def getitem_nat random_betavariate_def Let_def)

lemma nonneg_nth: "nonneg xs \<Longrightarrow> i < length xs \<Longrightarrow> 0 \<le> xs ! i"
  by (simp add: nonneg_def)

lemma nonneg_bump: "nonneg xs \<Longrightarrow> i < length xs \<Longrightarrow> nonneg (xs[i := xs ! i + 1])"
  unfolding nonneg_def
  by (metis add_nonneg_nonneg insert_iff nth_mem set_update_subset_insert subsetD zero_le_one)

lemma nonneg_zeros: "nonneg (np_zeros k)"
  by (simp add: nonneg_def np_zeros_def)

lemma ts_scan_prefix:
  assumes "length (ts_rewards_obtained s) = k" "length (failures s) = k"
    "nonneg (ts_rewards_obtained s)" "nonneg (failures s)" "n \<le> k"
  shows "\<exists>a m. for_each [0..<n] (ts_scan_body s) ((0, 0), w)
                  = Inr ((a, m), w\<lparr>py_pos := py_pos w + n\<rparr>)
               \<and> scan_inv (take n (ts_samples k s w)) a m"
  using assms(5)
proof (induction n)
  case 0
  then show ?case by (simp add: scan_inv_def)
next
  case (Suc n)
  then have n: "n < k" by simp
  with Suc.IH obtain a m
    where run: "for_each [0..<n] (ts_scan_body s) ((0, 0), w)
                  = Inr ((a, m), w\<lparr>py_pos := py_pos w + n\<rparr>)"
      and inv: "scan_inv (take n (ts_samples k s w)) a m"
    by auto
  let ?x = "ts_samples k s w ! n"
  have tk: "take (Suc n) (ts_samples k s w) = take n (ts_samples k s w) @ [?x]"
    using n by (simp add: take_Suc_conv_app_nth)
  have body: "ts_scan_body s n ((a, m), w\<lparr>py_pos := py_pos w + n\<rparr>) =
      Inr (if ?x > m then (n, ?x) else (a, m), w\<lparr>py_pos := py_pos w + Suc n\<rparr>)"
    using n assms(1-4) by (simp add: ts_scan_body_ok nonneg_nth ts_samples_nth Let_def)
  have step: "for_each [0..<Suc n] (ts_scan_body s) ((0, 0), w) =
      Inr (if ?x > m then (n, ?x) else (a, m), w\<lparr>py_pos := py_pos w + Suc n\<rparr>)"
    by (simp add: for_each_append run body del: upt_Suc add: upt_Suc_append)
  show ?case
  proof (cases "?x > m")
    case True
    from scan_inv_snoc_gt[OF inv True] have "scan_inv (take (Suc n) (ts_samples k s w)) n ?x"
      using n by (simp add: tk min_absorb2)
    with step True show ?thesis by auto
  next
    case False
    from scan_inv_snoc_le[OF inv False] have "scan_inv (take (Suc n) (ts_samples k s w)) a m"
      by (simp add: tk)
    with step False show ?thesis by auto
  qed
qed

lemma ts_samples_nonneg:
  assumes "rng_ok w" "length (ts_rewards_obtained s) = k" "length (failures s) = k"
    "nonneg (ts_rewards_obtained s)" "nonneg (failures s)"
  shows "\<forall>x \<in> set (ts_samples k s w). 0 \<le> x"
proof
  fix x assume "x \<in> set (ts_samples k s w)"
  then obtain j where j: "j < k" "x = ts_samples k s w ! j"
    by (metis in_set_conv_nth ts_samples_length)
  have "0 < ts_rewards_obtained s ! j + 1" "0 < failures s ! j + 1"
    using nonneg_nth[OF assms(4), of j] nonneg_nth[OF assms(5), of j] j(1) assms(2,3)
    by simp_all
  from rng_ok_beta[OF assms(1) this] j show "0 \<le> x" by (simp add: ts_samples_nth)
qed

lemma ts_select_ok:
  assumes "rng_ok w" "length (ts_rewards_obtained s) = k" "length (failures s) = k"
    "nonneg (ts_rewards_obtained s)" "nonneg (failures s)" "0 < k"
  shows "\<exists>a m. ts_select k s w = Inr ((a, m), w\<lparr>py_pos := py_pos w + k\<rparr>)
               \<and> first_max (ts_samples k s w) a"
proof -
  from ts_scan_prefix[OF assms(2-5) order_refl, of w] obtain a m
    where run: "ts_select k s w = Inr ((a, m), w\<lparr>py_pos := py_pos w + k\<rparr>)"
      and inv: "scan_inv (ts_samples k s w) a m"
    by (auto simp: ts_select_def)
  have "ts_samples k s w \<noteq> []" using assms(6) by (simp add: ts_samples_def)
  from scan_inv_first_max[OF inv this ts_samples_nonneg[OF assms(1-5)]] run
  show ?thesis by blast
qed

subsection \<open>Thompson sampling: one iteration and the loop\<close>

lemma ts_record_ok:
  assumes "a < length (ts_rewards_obtained s)" "a < length (failures s)"
  shows "ts_record s a r =
     Inr (s\<lparr>ts_rewards_obtained :=
              (if 90 < r then (ts_rewards_obtained s)[a := ts_rewards_obtained s ! a + 1]
               else ts_rewards_obtained s),
            failures :=
              (if 90 < r then failures s else (failures s)[a := failures s ! a + 1]),
            total_rewards := total_rewards s @ [r],
            ts_cumulative_rewards := ts_cumulative_rewards s
              @ [(sum_list (total_rewards s) + r) / (real (length (total_rewards s)) + 1)]\<rparr>)"
  using assms by (simp add: ts_record_def iadd_item_nat mean_snoc)

lemma ts_body_desc:
  assumes "world_ok k w" "0 < k"
    "length (ts_count_of_arms_pulled s) = k"
    "length (ts_rewards_obtained s) = k" "length (failures s) = k"
    "nonneg (ts_rewards_obtained s)" "nonneg (failures s)"
  shows "\<exists>a r. first_max (ts_samples k s w) a
     \<and> pull (int a) (w\<lparr>py_pos := py_pos w + k\<rparr>)
         = Inr (r, w\<lparr>py_pos := py_pos w + k, np_pos := Suc (np_pos w)\<rparr>)
     \<and> ThompsonSamplingAgent_body k (s, w) =
         Inr (\<lparr>ts_count_of_arms_pulled =
                 (ts_count_of_arms_pulled s)[a := ts_count_of_arms_pulled s ! a + 1],
               ts_rewards_obtained =
                 (if 90 < r then (ts_rewards_obtained s)[a := ts_rewards_obtained s ! a + 1]
                  else ts_rewards_obtained s),
               failures =
                 (if 90 < r then failures s else (failures s)[a := failures s ! a + 1]),
               ts_cumulative_rewards = ts_cumulative_rewards s
                 @ [(sum_list (total_rewards s) + r) / (real (length (total_rewards s)) + 1)],
               total_rewards = total_rewards s @ [r]\<rparr>,
              w\<lparr>py_pos := py_pos w + k, np_pos := Suc (np_pos w)\<rparr>)"
proof -
  from assms(1) have "rng_ok w" by (simp add: world_ok_def)
  from ts_select_ok[OF this assms(4,5,6,7,2)] obtain a m
    where sel: "ts_select k s w = Inr ((a, m), w\<lparr>py_pos := py_pos w + k\<rparr>)"
      and fm: "first_max (ts_samples k s w) a"
    by blast
  from fm have a: "a < k" by (simp add: first_max_def)
  from assms(1) have "world_ok k (w\<lparr>py_pos := py_pos w + k\<rparr>)" by simp
  from pull_ok[OF this a] obtain r
    where pl: "pull (int a) (w\<lparr>py_pos := py_pos w + k\<rparr>)
         = Inr (r, w\<lparr>py_pos := py_pos w + k, np_pos := Suc (np_pos w)\<rparr>)"
    by auto
  have "ThompsonSamplingAgent_body k (s, w) =
         Inr (\<lparr>ts_count_of_arms_pulled =
                 (ts_count_of_arms_pulled s)[a := ts_count_of_arms_pulled s ! a + 1],
               ts_rewards_obtained =
                 (if 90 < r then (ts_rewards_obtained s)[a := ts_rewards_obtained s ! a + 1]
                  else ts_rewards_obtained s),
               failures =
                 (if 90 < r then failures s else (failures s)[a := failures s ! a + 1]),
               ts_cumulative_rewards = ts_cumulative_rewards s
                 @ [(sum_list (total_rewards s) + r) / (real (length (total_rewards s)) + 1)],
               total_rewards = total_rewards s @ [r]\<rparr>,
              w\<lparr>py_pos := py_pos w + k, np_pos := Suc (np_pos w)\<rparr>)"
    using a assms(3,4,5)
    by (simp add: ThompsonSamplingAgent_body_def sel pl iadd_item_nat ts_record_ok)
  with fm pl show ?thesis by blast
qed

lemma ts_body_ok:
  assumes "ts_inv k n sw" "0 < k"
  shows "\<exists>sw'. ThompsonSamplingAgent_body k sw = Inr sw' \<and> ts_inv k (Suc n) sw'"
proof -
  obtain s w where sw: "sw = (s, w)" by (cases sw)
  from assms(1) sw have w: "world_ok k w"
    and len: "length (ts_count_of_arms_pulled s) = k"
      "length (ts_rewards_obtained s) = k" "length (failures s) = k"
    and nn: "nonneg (ts_rewards_obtained s)" "nonneg (failures s)"
    and eq: "\<forall>i<k. ts_rewards_obtained s ! i + failures s ! i = ts_count_of_arms_pulled s ! i"
    and cnt: "sum_list (ts_count_of_arms_pulled s) = real n"
      "length (total_rewards s) = n" "length (ts_cumulative_rewards s) = n"
    by (simp_all add: ts_inv_def)
  from ts_body_desc[OF w assms(2) len nn] obtain a r s' w'
    where fm: "first_max (ts_samples k s w) a"
      and body: "ThompsonSamplingAgent_body k (s, w) = Inr (s', w')"
      and w': "w' = w\<lparr>py_pos := py_pos w + k, np_pos := Suc (np_pos w)\<rparr>"
      and s': "s' = \<lparr>ts_count_of_arms_pulled =
                 (ts_count_of_arms_pulled s)[a := ts_count_of_arms_pulled s ! a + 1],
               ts_rewards_obtained =
                 (if 90 < r then (ts_rewards_obtained s)[a := ts_rewards_obtained s ! a + 1]
                  else ts_rewards_obtained s),
               failures =
                 (if 90 < r then failures s else (failures s)[a := failures s ! a + 1]),
               ts_cumulative_rewards = ts_cumulative_rewards s
                 @ [(sum_list (total_rewards s) + r) / (real (length (total_rewards s)) + 1)],
               total_rewards = total_rewards s @ [r]\<rparr>"
    by blast
  from fm have a: "a < k" by (simp add: first_max_def)
  have "ts_inv k (Suc n) (s', w')"
    using w len nn eq cnt a
    by (simp add: ts_inv_def s' w' sum_list_bump nonneg_bump nth_list_update)
  with body sw show ?thesis by blast
qed

lemma ts_inv_init: "world_ok k w \<Longrightarrow> ts_inv k 0 (ThompsonSamplingAgent_init_locals k, w)"
  by (simp add: ts_inv_def ThompsonSamplingAgent_init_locals_def nonneg_zeros)
     (simp add: np_zeros_def sum_list_replicate)

lemma ts_loop_ok:
  assumes "world_ok k w" "0 < k"
  shows "\<exists>sw'. ThompsonSamplingAgent_loop self w = Inr sw' \<and> ts_inv k (nat (ts_steps self)) sw'"
proof -
  from assms(1) have k: "k_arms (base_environment w) = k" by (simp add: world_ok_def)
  have "\<exists>sw'. for_each (py_range (ts_steps self)) (\<lambda>_. ThompsonSamplingAgent_body k)
           (ThompsonSamplingAgent_init_locals k, w) = Inr sw'
        \<and> ts_inv k (0 + length (py_range (ts_steps self))) sw'"
  proof (rule for_each_counted[where P = "ts_inv k"])
    show "ts_inv k 0 (ThompsonSamplingAgent_init_locals k, w)"
      using assms(1) by (rule ts_inv_init)
  next
    fix n x sw
    assume "ts_inv k n sw"
    then show "\<exists>sw'. ThompsonSamplingAgent_body k sw = Inr sw' \<and> ts_inv k (Suc n) sw'"
      using assms(2) by (rule ts_body_ok)
  qed
  then show ?thesis by (simp add: ThompsonSamplingAgent_loop_def k length_py_range)
qed

subsection \<open>Random agent\<close>

lemma ra_body_ok:
  assumes "ra_inv k g n sw" "0 < k" "g \<noteq> []"
  shows "\<exists>sw'. RandomAgent_body sw = Inr sw' \<and> ra_inv k g (Suc n) sw'"
proof -
  obtain s w where sw: "sw = (s, w)" by (cases sw)
  from assms(1) sw have w: "world_ok k w" and g: "global_rewards w = g"
    and len: "length (ra_count_of_arms_pulled s) = k"
    and cnt: "sum_list (ra_count_of_arms_pulled s) = real n"
      "length (ra_rewards_obtained s) = n" "length (ra_cumulative_rewards s) = n"
    by (simp_all add: ra_inv_def)
  let ?a = "np_choice_tape w (np_pos w) k"
  let ?w1 = "w\<lparr>np_pos := Suc (np_pos w)\<rparr>"
  from w have k: "k_arms (base_environment w) = k" and "rng_ok w"
    by (simp_all add: world_ok_def)
  from rng_ok_choice[OF this(2) assms(2)] have a: "?a < k" .
  have ch: "np_random_choice (k_arms (base_environment w)) w = Inr (?a, ?w1)"
    using assms(2) by (simp add: np_random_choice_def k)
  from w have "world_ok k ?w1" by simp
  from pull_ok[OF this a] obtain r
    where pl: "pull (int ?a) ?w1 = Inr (r, w\<lparr>np_pos := Suc (Suc (np_pos w))\<rparr>)"
    by auto
  have mn: "mean g = Inr (sum_list g / real (length g))"
    using assms(3) by (simp add: mean_def)
  have body: "RandomAgent_body sw =
      Inr (\<lparr>ra_count_of_arms_pulled =
              (ra_count_of_arms_pulled s)[?a := ra_count_of_arms_pulled s ! ?a + 1],
            ra_rewards_obtained = ra_rewards_obtained s @ [r],
            ra_cumulative_rewards = ra_cumulative_rewards s @ [sum_list g / real (length g)]\<rparr>,
           w\<lparr>np_pos := Suc (Suc (np_pos w))\<rparr>)"
    using a len by (simp add: RandomAgent_body_def sw ch pl iadd_item_nat g mn)
  show ?thesis
    unfolding body using w g len cnt a by (simp add: ra_inv_def sum_list_bump)
qed

lemma ra_loop_ok:
  assumes "world_ok k w" "0 < k" "global_rewards w \<noteq> []"
  shows "\<exists>sw'. RandomAgent_loop self w = Inr sw'
            \<and> ra_inv k (global_rewards w) (nat (ra_steps self)) sw'"
proof -
  from assms(1) have k: "k_arms (base_environment w) = k" by (simp add: world_ok_def)
  have "\<exists>sw'. for_each (py_range (ra_steps self)) (\<lambda>_. RandomAgent_body)
           (RandomAgent_init_locals w, w) = Inr sw'
        \<and> ra_inv k (global_rewards w) (0 + length (py_range (ra_steps self))) sw'"
  proof (rule for_each_counted[where P = "ra_inv k (global_rewards w)"])
    show "ra_inv k (global_rewards w) 0 (RandomAgent_init_locals w, w)"
      using assms(1)
      by (simp add: ra_inv_def RandomAgent_init_locals_def np_zeros_def k sum_list_replicate)
  next
    fix n x sw
    assume "ra_inv k (global_rewards w) n sw"
    then show "\<exists>sw'. RandomAgent_body sw = Inr sw' \<and> ra_inv k (global_rewards w) (Suc n) sw'"
      using assms(2,3) by (rule ra_body_ok)
  qed
  then show ?thesis by (simp add: RandomAgent_loop_def length_py_range)
qed

text \<open>Whenever an iteration returns, it has appended the average of the global vector.\<close>

lemma ra_body_cumulative:
  assumes "RandomAgent_body (s, w) = Inr (s', w')"
  shows "global_rewards w' = global_rewards w \<and>
         ra_cumulative_rewards s' = ra_cumulative_rewards s
           @ [sum_list (global_rewards w) / real (length (global_rewards w))]"
proof -
  from assms obtain a w1 r w2 where
    ch: "np_random_choice (k_arms (base_environment w)) w = Inr (a, w1)"
    and pl: "pull (int a) w1 = Inr (r, w2)"
    by (auto simp: RandomAgent_body_def split: sum.splits)
  from ch have w1: "w1 = w\<lparr>np_pos := Suc (np_pos w)\<rparr>"
    by (auto simp: np_random_choice_def split: if_splits)
  from pull_world[of "int a" w1] pl have w2: "w2 = w1\<lparr>np_pos := Suc (np_pos w1)\<rparr>"
    by (simp add: final_world_def)
  from assms ch pl show ?thesis
    by (auto simp: RandomAgent_body_def w1 w2 mean_def split: sum.splits if_splits)
qed

lemma for_each_counted_partial:
  assumes "P m s"
    and "\<And>n x s s'. P n s \<Longrightarrow> body x s = Inr s' \<Longrightarrow> P (Suc n) s'"
    and "for_each xs body s = Inr s'"
  shows "P (m + length xs) s'"
  using assms(1,3)
proof (induction xs arbitrary: m s)
  case Nil
  then show ?case by simp
next
  case (Cons x xs)
  from Cons.prems(2) obtain s1 where s1: "body x s = Inr s1" "for_each xs body s1 = Inr s'"
    by (auto split: sum.splits)
  from Cons.IH[OF assms(2)[OF Cons.prems(1) s1(1)] s1(2)] show ?case by simp
qed

lemma ra_loop_cumulative:
  assumes "RandomAgent_loop self w = Inr (s', w')"
  shows "ra_cumulative_rewards s' =
     replicate (nat (ra_steps self)) (sum_list (global_rewards w) / real (length (global_rewards w)))"
proof -
  let ?avg = "sum_list (global_rewards w) / real (length (global_rewards w))"
  let ?P = "\<lambda>n sw. global_rewards (snd sw) = global_rewards w
                  \<and> ra_cumulative_rewards (fst sw) = replicate n ?avg"
  have "?P (0 + length (py_range (ra_steps self))) (s', w')"
  proof (rule for_each_counted_partial[where P = ?P and body = "\<lambda>_. RandomAgent_body"])
    show "?P 0 (RandomAgent_init_locals w, w)"
      by (simp add: RandomAgent_init_locals_def)
  next
    fix n x sw sw'
    assume P: "?P n sw" and b: "RandomAgent_body sw = Inr sw'"
    obtain s1 w1 s2 w2 where sw: "sw = (s1, w1)" "sw' = (s2, w2)"
      by (cases sw, cases sw') auto
    from ra_body_cumulative[OF b[unfolded sw]] P sw show "?P (Suc n) sw'"
      by (simp add: replicate_append_same)
  next
    show "for_each (py_range (ra_steps self)) (\<lambda>_. RandomAgent_body)
            (RandomAgent_init_locals w, w) = Inr (s', w')"
      using assms by (simp add: RandomAgent_loop_def)
  qed
  then show ?thesis by (simp add: length_py_range)
qed

subsection \<open>The fixed part of the world is only read\<close>

lemma for_each_fixed:
  assumes "\<And>x s w. fixed_part (final_world (body x (s, w))) = fixed_part w"
  shows "fixed_part (final_world (for_each xs body (s, w))) = fixed_part w"
proof (induction xs arbitrary: s w)
  case Nil
  then show ?case by (simp add: final_world_def)
next
  case (Cons x xs)
  show ?case
  proof (cases "body x (s, w)")
    case (Inl ew)
    with assms[of x s w] show ?thesis by simp
  next
    case (Inr sw1)
    obtain s1 w1 where sw1: "sw1 = (s1, w1)" by (cases sw1)
    from assms[of x s w] Inr sw1 have "fixed_part w1 = fixed_part w"
      by (simp add: final_world_def)
    with Cons.IH[of s1 w1] Inr sw1 show ?thesis by simp
  qed
qed

lemma final_world_simps [simp]:
  "final_world (Inl (e, w)) = w" "final_world (Inr (x, w)) = w"
  by (simp_all add: final_world_def)

lemma fixed_np_pos [simp]: "fixed_part (w\<lparr>np_pos := n\<rparr>) = fixed_part w"
  by (simp add: fixed_part_def)

lemma fixed_py_pos [simp]: "fixed_part (w\<lparr>py_pos := n\<rparr>) = fixed_part w"
  by (simp add: fixed_part_def)

lemma fixed_base_environment: "fixed_part w' = fixed_part w \<Longrightarrow> base_environment w' = base_environment w"
  by (simp add: fixed_part_def)

lemma fixed_rng_ok: "fixed_part w' = fixed_part w \<Longrightarrow> rng_ok w' = rng_ok w"
  by (simp add: fixed_part_def rng_ok_def)

lemma choice_fixed:
  "fixed_part (final_world (np_random_choice a w)) = fixed_part w"
  by (simp add: np_random_choice_def)

lemma pull_fixed: "fixed_part (final_world (pull a w)) = fixed_part w"
  by (simp add: pull_world)

lemma eg_select_fixed:
  "fixed_part (final_world (eg_select eps k q w)) = fixed_part w"
  by (simp add: eg_select_def np_random_random_def choice_fixed split: sum.split)

lemma ts_scan_body_fixed:
  "fixed_part (final_world (ts_scan_body s j (am, w))) = fixed_part w"
  by (cases am) (simp add: ts_scan_body_def random_betavariate_def split: sum.split)

lemma ts_select_fixed:
  "fixed_part (final_world (ts_select k s w)) = fixed_part w"
  unfolding ts_select_def by (rule for_each_fixed) (rule ts_scan_body_fixed)

lemma bind_fixed:
  assumes "fixed_part (final_world r) = fixed_part w"
    and "\<And>x w1. r = Inr (x, w1) \<Longrightarrow> fixed_part (final_world (f x w1)) = fixed_part w1"
  shows "fixed_part (final_world (case r of Inl ew \<Rightarrow> Inl ew | Inr (x, w1) \<Rightarrow> f x w1))
           = fixed_part w"
  using assms by (cases r) auto

lemma ra_body_fixed:
  "fixed_part (final_world (RandomAgent_body (s, w))) = fixed_part w"
  unfolding RandomAgent_body_def prod.case
  by (intro bind_fixed choice_fixed pull_fixed) (simp split: sum.split)

lemma eg_body_fixed:
  "fixed_part (final_world (EpsilonGreedyAgent_body eps k (s, w))) = fixed_part w"
  unfolding EpsilonGreedyAgent_body_def prod.case
  by (intro bind_fixed eg_select_fixed pull_fixed) (simp split: sum.split)

lemma ts_body_fixed:
  "fixed_part (final_world (ThompsonSamplingAgent_body k (s, w))) = fixed_part w"
proof -
  have "fixed_part (final_world
          (case ts_select k s w of Inl ew \<Rightarrow> Inl ew
           | Inr (am, w1) \<Rightarrow>
               (case iadd_item (ts_count_of_arms_pulled s) (int (fst am)) 1 of
                  Inl e \<Rightarrow> Inl (e, w1)
                | Inr counts \<Rightarrow>
                   (case pull (int (fst am)) w1 of Inl ew \<Rightarrow> Inl ew
                    | Inr (reward, w2) \<Rightarrow>
                       (case ts_record (s\<lparr>ts_count_of_arms_pulled := counts\<rparr>) (fst am) reward of
                          Inl e \<Rightarrow> Inl (e, w2) | Inr s' \<Rightarrow> Inr (s', w2))))))
        = fixed_part w"
  proof (intro bind_fixed ts_select_fixed)
    fix am :: "nat \<times> real" and w1
    show "fixed_part (final_world
           (case iadd_item (ts_count_of_arms_pulled s) (int (fst am)) 1 of
                  Inl e \<Rightarrow> Inl (e, w1)
                | Inr counts \<Rightarrow>
                   (case pull (int (fst am)) w1 of Inl ew \<Rightarrow> Inl ew
                    | Inr (reward, w2) \<Rightarrow>
                       (case ts_record (s\<lparr>ts_count_of_arms_pulled := counts\<rparr>) (fst am) reward of
                          Inl e \<Rightarrow> Inl (e, w2) | Inr s' \<Rightarrow> Inr (s', w2))))) = fixed_part w1"
    proof (cases "iadd_item (ts_count_of_arms_pulled s) (int (fst am)) 1")
      case (Inl e)
      then show ?thesis by simp
    next
      case (Inr counts)
      have "fixed_part (final_world
              (case pull (int (fst am)) w1 of Inl ew \<Rightarrow> Inl ew
               | Inr (reward, w2) \<Rightarrow>
                  (case ts_record (s\<lparr>ts_count_of_arms_pulled := counts\<rparr>) (fst am) reward of
                     Inl e \<Rightarrow> Inl (e, w2) | Inr s' \<Rightarrow> Inr (s', w2)))) = fixed_part w1"
        by (intro bind_fixed pull_fixed) (simp split: sum.split)
      with Inr show ?thesis by simp
    qed
  qed
  then show ?thesis
    by (simp add: ThompsonSamplingAgent_body_def split_beta cong: sum.case_cong)
qed

subsection \<open>The small world\<close>

lemmas demo_defs = demo_world_def demo_env_def SlotMachineEnvironment_init_def

lemma demo_simps [simp]:
  "base_environment demo_world = demo_env"
  "global_rewards demo_world = [100, 20]"
  "np_pos demo_world = 0"
  "np_random_tape demo_world = (\<lambda>n. 1/2)"
  "np_choice_tape demo_world = (\<lambda>n a. if even n then 0 else a - 1)"
  "py_pos demo_world = 0"
  "betavariate_tape demo_world = (\<lambda>n a b. 1 / (1 + a))"
  "reward_probabilities demo_env = [1, 0]"
  "rewards demo_env = [100, 20]"
  "k_arms demo_env = 2"
  by (simp_all add: demo_defs)

subsection \<open>Whole runs leave the fixed part alone\<close>

lemma ra_step_fixed: "fixed_part (final_world (RandomAgent_step ra w)) = fixed_part w"
proof -
  have "fixed_part (final_world (RandomAgent_loop ra w)) = fixed_part w"
    unfolding RandomAgent_loop_def by (rule for_each_fixed) (rule ra_body_fixed)
  then show ?thesis
    by (cases "RandomAgent_loop ra w") (auto simp: RandomAgent_step_def)
qed

lemma eg_loop_fixed: "fixed_part (final_world (EpsilonGreedyAgent_loop eg w)) = fixed_part w"
  unfolding EpsilonGreedyAgent_loop_def Let_def by (rule for_each_fixed) (rule eg_body_fixed)

lemma eg_step_fixed: "fixed_part (final_world (EpsilonGreedyAgent_step eg w)) = fixed_part w"
  using eg_loop_fixed[of eg w]
  by (cases "EpsilonGreedyAgent_loop eg w") (auto simp: EpsilonGreedyAgent_step_def)

lemma ts_step_fixed: "fixed_part (final_world (ThompsonSamplingAgent_step ts w)) = fixed_part w"
proof -
  have "fixed_part (final_world (ThompsonSamplingAgent_loop ts w)) = fixed_part w"
    unfolding ThompsonSamplingAgent_loop_def Let_def
    by (rule for_each_fixed) (rule ts_body_fixed)
  then show ?thesis
    by (cases "ThompsonSamplingAgent_loop ts w") (auto simp: ThompsonSamplingAgent_step_def)
qed

subsection \<open>Epsilon-greedy: histories\<close>

lemma eg_body_InrD:
  assumes "EpsilonGreedyAgent_body eps k (s, w) = Inr (s', w')"
  shows "\<exists>a w1 r. eg_select eps k (q_values s) w = Inr (a, w1)
                 \<and> pull (int a) w1 = Inr (r, w') \<and> eg_update s a r = Inr s'"
  using assms by (auto simp: EpsilonGreedyAgent_body_def split: sum.splits)

lemma eg_history_determines_locals:
  assumes "for_each xs (\<lambda>_. EpsilonGreedyAgent_body eps k) (s, w1) = Inr (s1, w1')"
    and "for_each xs (\<lambda>_. EpsilonGreedyAgent_body eps k) (s, w2) = Inr (s2, w2')"
    and "eg_history (length xs) eps k s w1 = eg_history (length xs) eps k s w2"
  shows "s1 = s2"
  using assms
proof (induction xs arbitrary: s w1 w2)
  case Nil
  then show ?case by simp
next
  case (Cons x xs)
  from Cons.prems(1) obtain sa wa
    where b1: "EpsilonGreedyAgent_body eps k (s, w1) = Inr (sa, wa)"
      and r1: "for_each xs (\<lambda>_. EpsilonGreedyAgent_body eps k) (sa, wa) = Inr (s1, w1')"
    by (auto split: sum.splits)
  from Cons.prems(2) obtain sb wb
    where b2: "EpsilonGreedyAgent_body eps k (s, w2) = Inr (sb, wb)"
      and r2: "for_each xs (\<lambda>_. EpsilonGreedyAgent_body eps k) (sb, wb) = Inr (s2, w2')"
    by (auto split: sum.splits)
  from eg_body_InrD[OF b1] obtain a1 v1 p1
    where c1: "eg_select eps k (q_values s) w1 = Inr (a1, v1)"
      "pull (int a1) v1 = Inr (p1, wa)" "eg_update s a1 p1 = Inr sa"
    by blast
  from eg_body_InrD[OF b2] obtain a2 v2 p2
    where c2: "eg_select eps k (q_values s) w2 = Inr (a2, v2)"
      "pull (int a2) v2 = Inr (p2, wb)" "eg_update s a2 p2 = Inr sb"
    by blast
  have h1: "eg_history (length (x # xs)) eps k s w1 = (a1, p1) # eg_history (length xs) eps k sa wa"
    by (simp add: c1)
  have h2: "eg_history (length (x # xs)) eps k s w2 = (a2, p2) # eg_history (length xs) eps k sb wb"
    by (simp add: c2)
  from Cons.prems(3) h1 h2 have eq: "a1 = a2" "p1 = p2"
    and tl: "eg_history (length xs) eps k sa wa = eg_history (length xs) eps k sb wb"
    by simp_all
  from c1(3) c2(3) eq have sab: "sb = sa" by simp
  from Cons.IH[OF r1 r2[unfolded sab] tl[unfolded sab]] show ?case .
qed

lemma eg_select_zero:
  assumes "rng_ok w"
  shows "eg_select 0 k q w =
     (case np_argmax q of
        Inl e \<Rightarrow> Inl (e, w\<lparr>np_pos := Suc (np_pos w)\<rparr>)
      | Inr a \<Rightarrow> Inr (a, w\<lparr>np_pos := Suc (np_pos w)\<rparr>))"
proof (rule eg_select_exploit)
  from rng_ok_uniform[OF assms, of "np_pos w"]
  show "\<not> np_random_tape w (np_pos w) < 0" by simp
qed

lemma eg_loop_rng_ok:
  assumes "EpsilonGreedyAgent_loop eg w = Inr (s, w')" "rng_ok w"
  shows "rng_ok w'"
  using eg_loop_fixed[of eg w] assms fixed_rng_ok[of w' w] by simp

subsection \<open>Concrete runs\<close>

lemmas run_defs =
  RandomAgent_body_def RandomAgent_init_locals_def
  EpsilonGreedyAgent_body_def
  EpsilonGreedyAgent_init_locals_def eg_select_def eg_update_def
  ThompsonSamplingAgent_body_def
  ThompsonSamplingAgent_init_locals_def ts_select_def ts_scan_body_def ts_record_def
  pull_def np_random_random_def np_random_choice_def random_betavariate_def
  np_argmax_def np_zeros_def mean_def py_range_def getitem_def setitem_def iadd_item_def
  py_index_def

lemma upt_small: "[0..<3] = [0, 1, 2]" "[0..<2] = [0, 1]"
  by (simp_all add: upt_rec)

lemma demo_random_run:
  "RandomAgent_loop \<lparr>ra_steps = 3\<rparr> demo_world =
     Inr (\<lparr>ra_count_of_arms_pulled = [3, 0], ra_rewards_obtained = [100, 100, 100],
           ra_cumulative_rewards = [60, 60, 60]\<rparr>, demo_world\<lparr>np_pos := 6\<rparr>)"
  by (simp add: RandomAgent_loop_def run_defs demo_defs upt_small Let_def)

lemma demo_greedy_run:
  "EpsilonGreedyAgent_loop \<lparr>eg_steps = 3, epsilon = 0\<rparr> demo_world =
     Inr (\<lparr>q_values = [100, 0], rewards_obtained_per_arm = [300, 0],
           eg_count_of_arms_pulled = [3, 0], eg_rewards = [100, 100, 100],
           eg_cumulative_rewards = [100, 100, 100]\<rparr>, demo_world\<lparr>np_pos := 6\<rparr>)"
  by (simp add: EpsilonGreedyAgent_loop_def run_defs demo_defs upt_small Let_def)

lemma demo_explore_run:
  "EpsilonGreedyAgent_loop \<lparr>eg_steps = 3, epsilon = 1\<rparr> demo_world =
     Inr (\<lparr>q_values = [100, 0], rewards_obtained_per_arm = [100, 0],
           eg_count_of_arms_pulled = [1, 2], eg_rewards = [0, 100, 0],
           eg_cumulative_rewards = [0, 50, 100 / 3]\<rparr>, demo_world\<lparr>np_pos := 9\<rparr>)"
  by (simp add: EpsilonGreedyAgent_loop_def run_defs demo_defs upt_small Let_def)

lemma demo_thompson_run:
  "ThompsonSamplingAgent_loop \<lparr>ts_steps = 3\<rparr> demo_world =
     Inr (\<lparr>ts_count_of_arms_pulled = [1, 2], ts_rewards_obtained = [1, 0], failures = [0, 2],
           ts_cumulative_rewards = [100, 50, 100 / 3], total_rewards = [100, 0, 0]\<rparr>,
          demo_world\<lparr>np_pos := 3, py_pos := 6\<rparr>)"
  by (simp add: ThompsonSamplingAgent_loop_def run_defs demo_defs upt_small Let_def)

lemma demo_random_step:
  "RandomAgent_step \<lparr>ra_steps = 3\<rparr> demo_world =
     Inr (([3, 0], [100, 100, 100], [60, 60, 60]), demo_world\<lparr>np_pos := 6\<rparr>)"
  by (simp add: RandomAgent_step_def demo_random_run)

lemma rng_demo2: "rng_ok demo_world2"
  by (simp add: rng_ok_def demo_world2_def demo_defs)

lemma demo_greedy_run2:
  "EpsilonGreedyAgent_loop \<lparr>eg_steps = 3, epsilon = 0\<rparr> demo_world2 =
     Inr (\<lparr>q_values = [100, 0], rewards_obtained_per_arm = [300, 0],
           eg_count_of_arms_pulled = [3, 0], eg_rewards = [100, 100, 100],
           eg_cumulative_rewards = [100, 100, 100]\<rparr>, demo_world2\<lparr>np_pos := 6\<rparr>)"
  by (simp add: EpsilonGreedyAgent_loop_def run_defs demo_world2_def demo_defs upt_small Let_def)

lemma demo_history:
  "eg_history 3 0 2 (EpsilonGreedyAgent_init_locals 2) demo_world = [(0, 100), (0, 100), (0, 100)]"
  "eg_history 3 0 2 (EpsilonGreedyAgent_init_locals 2) demo_world2 = [(0, 100), (0, 100), (0, 100)]"
  by (simp_all add: run_defs demo_world2_def demo_defs eval_nat_numeral)

section \<open>The claims\<close>

text \<open>
  Claim C1. The claim is that \<^verbatim>\<open>pull(arm)\<close> returns \<open>0\<close> or \<^verbatim>\<open>rewards[arm]\<close> for every arm with
  \<open>0 \<le> arm < k_arms\<close>. That needs the length invariant, which the constructor does not
  establish. In an environment that satisfies it, \<^verbatim>\<open>pull(arm)\<close> with \<open>0 \<le> arm < k_arms\<close>
  returns, and draws exactly one uniform sample: the generator moves by one position. The
  value returned is \<^verbatim>\<open>rewards[arm]\<close> when that sample is strictly below
  \<^verbatim>\<open>reward_probabilities[arm]\<close>, and \<open>0\<close> otherwise; so it is never anything but \<open>0\<close> or
  \<^verbatim>\<open>rewards[arm]\<close>.
\<close>

theorem pull_returns_zero_or_payout:
  assumes "env_ok (base_environment w)" "0 \<le> arm" "arm < int (k_arms (base_environment w))"
  shows "pull arm w =
     Inr (if np_random_tape w (np_pos w) < reward_probabilities (base_environment w) ! nat arm
          then rewards (base_environment w) ! nat arm else 0,
          w\<lparr>np_pos := Suc (np_pos w)\<rparr>)"
  using pull_nat[of w "nat arm"] assms by simp

theorem pull_returns_zero_or_payout_witness:
  "env_ok (base_environment demo_world) \<and> (0::int) \<le> 1
   \<and> 1 < int (k_arms (base_environment demo_world))
   \<and> pull 0 demo_world = Inr (100, demo_world\<lparr>np_pos := Suc 0\<rparr>)
   \<and> pull 1 demo_world = Inr (0, demo_world\<lparr>np_pos := Suc 0\<rparr>)"
proof -
  have e: "env_ok (base_environment demo_world)"
    using env_demo by simp
  have k: "1 < int (k_arms (base_environment demo_world))"
    by simp
  have "pull 0 demo_world = Inr (100, demo_world\<lparr>np_pos := Suc 0\<rparr>)"
    using pull_returns_zero_or_payout[OF e, of 0] k by simp
  moreover have "pull 1 demo_world = Inr (0, demo_world\<lparr>np_pos := Suc 0\<rparr>)"
    using pull_returns_zero_or_payout[OF e _ k] by simp
  ultimately show ?thesis using e k by simp
qed

text \<open>With one probability for two payouts, arm 1 is below \<^verbatim>\<open>k_arms = 2\<close> and pulling it
  raises \<^verbatim>\<open>IndexError\<close>, after the sample has been drawn.\<close>

theorem pull_valid_arm_counterexample:
  "(0::int) \<le> 1 \<and> 1 < int (k_arms (base_environment short_probs_world))
   \<and> pull 1 short_probs_world = Inl (IndexError, short_probs_world\<lparr>np_pos := Suc 0\<rparr>)"
  by (simp add: short_probs_world_def SlotMachineEnvironment_init_def pull_def
      np_random_random_def getitem_def py_index_def)

text \<open>
  Claim C2. Whenever a \<^verbatim>\<open>RandomAgent\<close> run returns, its third component has one entry per
  step and every entry is \<^verbatim>\<open>sum(rewards)/len(rewards)\<close> of the global vector \<^verbatim>\<open>rewards\<close>; the
  rewards the agent obtained do not enter it. In a world whose generators keep their
  promises, whose environment satisfies the length invariant and has an arm, and whose
  global vector is the environment's payout vector (as in the notebook), the run does
  return, and the series is the constant average of the environment's payouts.
\<close>

theorem random_agent_series_is_constant:
  "(RandomAgent_step self w = Inr ((counts, obtained, cumulative), w') \<longrightarrow>
      cumulative = replicate (nat (ra_steps self))
                     (sum_list (global_rewards w) / real (length (global_rewards w))))
   \<and> (rng_ok w \<and> env_ok (base_environment w) \<and> 0 < k_arms (base_environment w)
        \<and> global_rewards w = rewards (base_environment w) \<longrightarrow>
      (\<exists>counts obtained w'.
         RandomAgent_step self w =
           Inr ((counts, obtained,
                 replicate (nat (ra_steps self))
                   (sum_list (rewards (base_environment w))
                      / real (length (rewards (base_environment w))))), w')))"
proof (intro conjI impI)
  assume "RandomAgent_step self w = Inr ((counts, obtained, cumulative), w')"
  then obtain s where "RandomAgent_loop self w = Inr (s, w')"
    and "cumulative = ra_cumulative_rewards s"
    by (auto simp: RandomAgent_step_def split: sum.splits)
  with ra_loop_cumulative[of self w s w']
  show "cumulative = replicate (nat (ra_steps self))
                     (sum_list (global_rewards w) / real (length (global_rewards w)))"
    by simp
next
  assume a: "rng_ok w \<and> env_ok (base_environment w) \<and> 0 < k_arms (base_environment w)
        \<and> global_rewards w = rewards (base_environment w)"
  let ?k = "k_arms (base_environment w)"
  from a have wk: "world_ok ?k w" by (simp add: world_ok_def)
  from a have "length (global_rewards w) = ?k" by (simp add: env_ok_def)
  with a have ne: "global_rewards w \<noteq> []" by auto
  from ra_loop_ok[OF wk _ ne, of self] a obtain s w'
    where run: "RandomAgent_loop self w = Inr (s, w')" by auto
  from ra_loop_cumulative[OF run] a run
  show "\<exists>counts obtained w'.
         RandomAgent_step self w =
           Inr ((counts, obtained,
                 replicate (nat (ra_steps self))
                   (sum_list (rewards (base_environment w))
                      / real (length (rewards (base_environment w))))), w')"
    by (simp add: RandomAgent_step_def)
qed

text \<open>In the small world the agent obtains 100 at each of three steps, and the series is
  60, the average of the payouts 100 and 20.\<close>

theorem random_agent_series_is_constant_witness:
  "RandomAgent_step \<lparr>ra_steps = 3\<rparr> demo_world =
     Inr (([3, 0], [100, 100, 100], [60, 60, 60]), demo_world\<lparr>np_pos := 6\<rparr>)
   \<and> rng_ok demo_world \<and> env_ok (base_environment demo_world)
   \<and> 0 < k_arms (base_environment demo_world)
   \<and> global_rewards demo_world = rewards (base_environment demo_world)
   \<and> [60, 60, 60] = replicate (nat (ra_steps \<lparr>ra_steps = 3\<rparr>))
        (sum_list (global_rewards demo_world) / real (length (global_rewards demo_world)))"
proof -
  have "[60, 60, 60] = replicate (nat (ra_steps \<lparr>ra_steps = 3\<rparr>))
        (sum_list (global_rewards demo_world) / real (length (global_rewards demo_world)))"
    using random_agent_series_is_constant[of "\<lparr>ra_steps = 3\<rparr>" demo_world
        "[3, 0]" "[100, 100, 100]" "[60, 60, 60]" "demo_world\<lparr>np_pos := 6\<rparr>"]
      demo_random_step by blast
  with demo_random_step rng_demo env_demo show ?thesis by simp
qed

text \<open>
  Claim C3. The claim is that every constructed environment has
  \<^verbatim>\<open>len(reward_probabilities) == len(rewards) == k_arms\<close>. The constructor checks nothing:
  it stores the two vectors and takes \<^verbatim>\<open>k_arms\<close> from \<^verbatim>\<open>rewards\<close>. So \<^verbatim>\<open>k_arms\<close> always equals
  \<^verbatim>\<open>len(rewards)\<close>, and the full invariant holds exactly when the caller passes vectors of
  equal length.
\<close>

theorem init_takes_k_arms_from_rewards:
  "k_arms (SlotMachineEnvironment_init probs rs) = length rs \<and>
   reward_probabilities (SlotMachineEnvironment_init probs rs) = probs \<and>
   rewards (SlotMachineEnvironment_init probs rs) = rs \<and>
   (env_ok (SlotMachineEnvironment_init probs rs) \<longleftrightarrow> length probs = length rs)"
  by (simp add: SlotMachineEnvironment_init_def env_ok_def)

theorem init_takes_k_arms_from_rewards_witness:
  "k_arms (SlotMachineEnvironment_init [1, 0] [100, 20]) = 2 \<and>
   env_ok (SlotMachineEnvironment_init [1, 0] [100, 20])"
  using init_takes_k_arms_from_rewards[of "[1, 0]" "[100, 20]"] by simp

text \<open>A probability vector of length 1 with a payout vector of length 2 is accepted,
  with \<^verbatim>\<open>k_arms = 2\<close>.\<close>

theorem init_lengths_counterexample:
  "\<not> env_ok (SlotMachineEnvironment_init [1/2] [1, 2])"
  by (simp add: SlotMachineEnvironment_init_def env_ok_def)

text \<open>
  Claim C4. One iteration of \<^verbatim>\<open>ThompsonSamplingAgent.step\<close>, from locals whose arrays have
  one non-negative entry per arm. The scan draws one Beta sample per arm, that of arm \<open>j\<close>
  with the parameters \<open>(successes[j] + 1, failures[j] + 1)\<close>, so the generator moves by
  \<open>k\<close> positions; the arm it selects is the first position of the largest sample. That
  arm's pull count is incremented, the arm is pulled, and its success count is
  incremented when the reward is strictly above 90, its failure count otherwise.
\<close>

theorem thompson_step_selects_first_max:
  assumes "rng_ok w" "env_ok (base_environment w)" "k_arms (base_environment w) = k" "0 < k"
    and "length (ts_count_of_arms_pulled s) = k"
    and "length (ts_rewards_obtained s) = k" "length (failures s) = k"
    and "nonneg (ts_rewards_obtained s)" "nonneg (failures s)"
  shows "\<exists>a m r s' w'.
      ts_select k s w = Inr ((a, m), w\<lparr>py_pos := py_pos w + k\<rparr>) \<and>
      first_max (ts_samples k s w) a \<and>
      pull (int a) (w\<lparr>py_pos := py_pos w + k\<rparr>) = Inr (r, w') \<and>
      ThompsonSamplingAgent_body k (s, w) = Inr (s', w') \<and>
      ts_count_of_arms_pulled s' =
        (ts_count_of_arms_pulled s)[a := ts_count_of_arms_pulled s ! a + 1] \<and>
      ts_rewards_obtained s' =
        (if 90 < r then (ts_rewards_obtained s)[a := ts_rewards_obtained s ! a + 1]
         else ts_rewards_obtained s) \<and>
      failures s' =
        (if 90 < r then failures s else (failures s)[a := failures s ! a + 1])"
proof -
  from assms(1-3) have wk: "world_ok k w" by (simp add: world_ok_def)
  from ts_select_ok[OF assms(1,6,7,8,9,4)] obtain a m
    where sel: "ts_select k s w = Inr ((a, m), w\<lparr>py_pos := py_pos w + k\<rparr>)"
      and fm: "first_max (ts_samples k s w) a"
    by blast
  from ts_body_desc[OF wk assms(4-9)] obtain b r s'
    where fb: "first_max (ts_samples k s w) b"
      and pl: "pull (int b) (w\<lparr>py_pos := py_pos w + k\<rparr>)
         = Inr (r, w\<lparr>py_pos := py_pos w + k, np_pos := Suc (np_pos w)\<rparr>)"
      and body: "ThompsonSamplingAgent_body k (s, w) =
         Inr (s', w\<lparr>py_pos := py_pos w + k, np_pos := Suc (np_pos w)\<rparr>)"
      and s': "s' = \<lparr>ts_count_of_arms_pulled =
                 (ts_count_of_arms_pulled s)[b := ts_count_of_arms_pulled s ! b + 1],
               ts_rewards_obtained =
                 (if 90 < r then (ts_rewards_obtained s)[b := ts_rewards_obtained s ! b + 1]
                  else ts_rewards_obtained s),
               failures =
                 (if 90 < r then failures s else (failures s)[b := failures s ! b + 1]),
               ts_cumulative_rewards = ts_cumulative_rewards s
                 @ [(sum_list (total_rewards s) + r) / (real (length (total_rewards s)) + 1)],
               total_rewards = total_rewards s @ [r]\<rparr>"
    by blast
  from first_max_unique[OF fm fb] have ab: "b = a" by simp
  show ?thesis
    using sel fm pl body unfolding ab
    by (intro exI[of _ a] exI[of _ m] exI[of _ r] exI[of _ s']
          exI[of _ "w\<lparr>py_pos := py_pos w + k, np_pos := Suc (np_pos w)\<rparr>"])
       (simp add: s' ab)
qed

text \<open>At the first step of the small world both samples are \<open>1/2\<close>: the tie goes to
  arm 0.\<close>

theorem thompson_step_selects_first_max_witness:
  "rng_ok demo_world \<and> env_ok (base_environment demo_world)
   \<and> k_arms (base_environment demo_world) = 2 \<and> (0::nat) < 2
   \<and> length (ts_count_of_arms_pulled (ThompsonSamplingAgent_init_locals 2)) = 2
   \<and> length (ts_rewards_obtained (ThompsonSamplingAgent_init_locals 2)) = 2
   \<and> length (failures (ThompsonSamplingAgent_init_locals 2)) = 2
   \<and> nonneg (ts_rewards_obtained (ThompsonSamplingAgent_init_locals 2))
   \<and> nonneg (failures (ThompsonSamplingAgent_init_locals 2))
   \<and> ts_samples 2 (ThompsonSamplingAgent_init_locals 2) demo_world = [1/2, 1/2]
   \<and> ts_select 2 (ThompsonSamplingAgent_init_locals 2) demo_world
        = Inr ((0, 1/2), demo_world\<lparr>py_pos := 2\<rparr>)
   \<and> first_max (ts_samples 2 (ThompsonSamplingAgent_init_locals 2) demo_world) 0"
proof -
  let ?s = "ThompsonSamplingAgent_init_locals 2"
  have h: "rng_ok demo_world" "env_ok (base_environment demo_world)"
    "k_arms (base_environment demo_world) = 2" "(0::nat) < 2"
    "length (ts_count_of_arms_pulled ?s) = 2"
    "length (ts_rewards_obtained ?s) = 2" "length (failures ?s) = 2"
    "nonneg (ts_rewards_obtained ?s)" "nonneg (failures ?s)"
    using rng_demo env_demo nonneg_zeros[of 2]
    by (simp_all add: ThompsonSamplingAgent_init_locals_def np_zeros_def)
  have smp: "ts_samples 2 ?s demo_world = [1/2, 1/2]"
    by (simp add: ts_samples_def ThompsonSamplingAgent_init_locals_def np_zeros_def upt_small
        eval_nat_numeral)
  have sel: "ts_select 2 ?s demo_world = Inr ((0, 1/2), demo_world\<lparr>py_pos := 2\<rparr>)"
    by (simp add: run_defs demo_defs upt_small eval_nat_numeral)
  from thompson_step_selects_first_max[OF h] sel
  have "first_max (ts_samples 2 ?s demo_world) 0" by auto
  with h smp sel show ?thesis by blast
qed

text \<open>
  Claim C5. One iteration of \<^verbatim>\<open>EpsilonGreedyAgent.step\<close>, from locals whose arrays have
  one entry per arm. When the sample is not below \<^verbatim>\<open>epsilon\<close> (the exploit branch), the
  selected arm is the first position of the largest entry of \<^verbatim>\<open>q_values\<close>, which is arm 0
  when all entries are zero. On either branch, after the pull the arm's reward sum has
  grown by the reward, its pull count by one, and its entry of \<^verbatim>\<open>q_values\<close> is the new
  reward sum divided by the new pull count, which is at least 1.
\<close>

theorem eg_step_exploits_first_max:
  assumes "rng_ok w" "env_ok (base_environment w)" "k_arms (base_environment w) = k" "0 < k"
    and "length (q_values s) = k" "length (rewards_obtained_per_arm s) = k"
    and "length (eg_count_of_arms_pulled s) = k" "nonneg (eg_count_of_arms_pulled s)"
  shows "\<exists>a w1 r s' w'.
      eg_select eps k (q_values s) w = Inr (a, w1) \<and>
      (\<not> np_random_tape w (np_pos w) < eps \<longrightarrow>
         first_max (q_values s) a \<and> (q_values s = np_zeros k \<longrightarrow> a = 0)) \<and>
      pull (int a) w1 = Inr (r, w') \<and>
      EpsilonGreedyAgent_body eps k (s, w) = Inr (s', w') \<and>
      rewards_obtained_per_arm s' =
        (rewards_obtained_per_arm s)[a := rewards_obtained_per_arm s ! a + r] \<and>
      eg_count_of_arms_pulled s' =
        (eg_count_of_arms_pulled s)[a := eg_count_of_arms_pulled s ! a + 1] \<and>
      1 \<le> eg_count_of_arms_pulled s' ! a \<and>
      q_values s' =
        (q_values s)[a := rewards_obtained_per_arm s' ! a / eg_count_of_arms_pulled s' ! a]"
proof -
  from eg_select_ok[OF assms(1,4,5)] obtain a n
    where sel: "eg_select eps k (q_values s) w = Inr (a, w\<lparr>np_pos := n\<rparr>)" and a: "a < k"
    by blast
  have fm: "first_max (q_values s) a \<and> (q_values s = np_zeros k \<longrightarrow> a = 0)"
    if ex: "\<not> np_random_tape w (np_pos w) < eps"
  proof -
    from assms(4,5) have "q_values s \<noteq> []" by auto
    from np_argmax_first_max[OF this] obtain b
      where b: "np_argmax (q_values s) = Inr b" "first_max (q_values s) b" by blast
    from eg_select_exploit[OF ex, of k "q_values s"] b(1) sel have "a = b" by simp
    with b(2) first_max_unique[OF _ first_max_zeros[OF assms(4)], of a] show ?thesis by auto
  qed
  from assms(1-3) have "world_ok k (w\<lparr>np_pos := n\<rparr>)" by (simp add: world_ok_def)
  from pull_ok[OF this a] obtain r
    where pl: "pull (int a) (w\<lparr>np_pos := n\<rparr>) = Inr (r, w\<lparr>np_pos := Suc n\<rparr>)"
    by auto
  let ?s' = "\<lparr>q_values = (q_values s)[a := (rewards_obtained_per_arm s ! a + r)
                                        / (eg_count_of_arms_pulled s ! a + 1)],
          rewards_obtained_per_arm =
            (rewards_obtained_per_arm s)[a := rewards_obtained_per_arm s ! a + r],
          eg_count_of_arms_pulled =
            (eg_count_of_arms_pulled s)[a := eg_count_of_arms_pulled s ! a + 1],
          eg_rewards = eg_rewards s @ [r],
          eg_cumulative_rewards = eg_cumulative_rewards s
            @ [(sum_list (eg_rewards s) + r) / (real (length (eg_rewards s)) + 1)]\<rparr>"
  have upd: "eg_update s a r = Inr ?s'"
    by (rule eg_update_ok) (simp_all add: assms a)
  have body: "EpsilonGreedyAgent_body eps k (s, w) = Inr (?s', w\<lparr>np_pos := Suc n\<rparr>)"
    by (simp add: EpsilonGreedyAgent_body_def sel pl upd)
  have "0 \<le> eg_count_of_arms_pulled s ! a"
    using nonneg_nth[OF assms(8)] a assms(7) by simp
  then have "1 \<le> eg_count_of_arms_pulled ?s' ! a
      \<and> q_values ?s' = (q_values s)[a := rewards_obtained_per_arm ?s' ! a
                                            / eg_count_of_arms_pulled ?s' ! a]"
    using a assms(6,7) by simp
  with sel fm pl body show ?thesis by (intro exI[of _ a] exI[of _ "w\<lparr>np_pos := n\<rparr>"]
      exI[of _ r] exI[of _ ?s'] exI[of _ "w\<lparr>np_pos := Suc n\<rparr>"]) simp
qed

theorem eg_step_exploits_first_max_witness:
  "rng_ok demo_world \<and> env_ok (base_environment demo_world)
   \<and> k_arms (base_environment demo_world) = 2 \<and> (0::nat) < 2
   \<and> length (q_values (EpsilonGreedyAgent_init_locals 2)) = 2
   \<and> length (rewards_obtained_per_arm (EpsilonGreedyAgent_init_locals 2)) = 2
   \<and> length (eg_count_of_arms_pulled (EpsilonGreedyAgent_init_locals 2)) = 2
   \<and> nonneg (eg_count_of_arms_pulled (EpsilonGreedyAgent_init_locals 2))
   \<and> \<not> np_random_tape demo_world (np_pos demo_world) < 0
   \<and> eg_select 0 2 (q_values (EpsilonGreedyAgent_init_locals 2)) demo_world
        = Inr (0, demo_world\<lparr>np_pos := 1\<rparr>)
   \<and> first_max (q_values (EpsilonGreedyAgent_init_locals 2)) 0"
proof -
  let ?s = "EpsilonGreedyAgent_init_locals 2"
  have h: "rng_ok demo_world" "env_ok (base_environment demo_world)"
    "k_arms (base_environment demo_world) = 2" "(0::nat) < 2"
    "length (q_values ?s) = 2" "length (rewards_obtained_per_arm ?s) = 2"
    "length (eg_count_of_arms_pulled ?s) = 2" "nonneg (eg_count_of_arms_pulled ?s)"
    using rng_demo env_demo nonneg_zeros[of 2]
    by (simp_all add: EpsilonGreedyAgent_init_locals_def np_zeros_def)
  have ex: "\<not> np_random_tape demo_world (np_pos demo_world) < 0" by simp
  have sel: "eg_select 0 2 (q_values ?s) demo_world = Inr (0, demo_world\<lparr>np_pos := 1\<rparr>)"
    by (simp add: run_defs demo_defs eval_nat_numeral)
  from eg_step_exploits_first_max[OF h, of 0] ex sel
  have "first_max (q_values ?s) 0" by auto
  with h ex sel show ?thesis by blast
qed

text \<open>
  Claim C6. In a world whose generators keep their promises and whose environment
  satisfies the length invariant and has an arm, with non-negative step budgets: the
  epsilon-greedy run returns pull counts that add up to the step budget; the Thompson run
  returns, in its final locals the success and failure counts of every arm add up to
  the arm's pull count, and the pull counts add up to the step budget.
\<close>

theorem pull_counts_add_up:
  assumes "rng_ok w" "env_ok (base_environment w)" "k_arms (base_environment w) = k" "0 < k"
    and "0 \<le> eg_steps eg" "0 \<le> ts_steps ts"
  shows "(\<exists>counts rs cumulative w'.
            EpsilonGreedyAgent_step eg w = Inr ((counts, rs, cumulative), w') \<and>
            sum_list counts = real_of_int (eg_steps eg))
       \<and> (\<exists>s w'.
            ThompsonSamplingAgent_loop ts w = Inr (s, w') \<and>
            ThompsonSamplingAgent_step ts w =
              Inr ((ts_count_of_arms_pulled s, ts_rewards_obtained s, ts_cumulative_rewards s), w') \<and>
            (\<forall>i<k. ts_rewards_obtained s ! i + failures s ! i = ts_count_of_arms_pulled s ! i) \<and>
            sum_list (ts_count_of_arms_pulled s) = real_of_int (ts_steps ts))"
proof
  from assms(1-3) have wk: "world_ok k w" by (simp add: world_ok_def)
  from eg_loop_ok[OF wk assms(4), of eg] obtain s w'
    where run: "EpsilonGreedyAgent_loop eg w = Inr (s, w')"
      and inv: "eg_inv k (nat (eg_steps eg)) (s, w')"
    by auto
  from inv assms(5) have "sum_list (eg_count_of_arms_pulled s) = real_of_int (eg_steps eg)"
    by (simp add: eg_inv_def)
  with run show "\<exists>counts rs cumulative w'.
            EpsilonGreedyAgent_step eg w = Inr ((counts, rs, cumulative), w') \<and>
            sum_list counts = real_of_int (eg_steps eg)"
    by (simp add: EpsilonGreedyAgent_step_def)
next
  from assms(1-3) have wk: "world_ok k w" by (simp add: world_ok_def)
  from ts_loop_ok[OF wk assms(4), of ts] obtain s w'
    where run: "ThompsonSamplingAgent_loop ts w = Inr (s, w')"
      and inv: "ts_inv k (nat (ts_steps ts)) (s, w')"
    by auto
  from inv assms(6) have
    "\<forall>i<k. ts_rewards_obtained s ! i + failures s ! i = ts_count_of_arms_pulled s ! i"
    "sum_list (ts_count_of_arms_pulled s) = real_of_int (ts_steps ts)"
    by (simp_all add: ts_inv_def)
  with run show "\<exists>s w'.
            ThompsonSamplingAgent_loop ts w = Inr (s, w') \<and>
            ThompsonSamplingAgent_step ts w =
              Inr ((ts_count_of_arms_pulled s, ts_rewards_obtained s, ts_cumulative_rewards s), w') \<and>
            (\<forall>i<k. ts_rewards_obtained s ! i + failures s ! i = ts_count_of_arms_pulled s ! i) \<and>
            sum_list (ts_count_of_arms_pulled s) = real_of_int (ts_steps ts)"
    by (simp add: ThompsonSamplingAgent_step_def)
qed

theorem pull_counts_add_up_witness:
  "rng_ok demo_world \<and> env_ok (base_environment demo_world)
   \<and> k_arms (base_environment demo_world) = 2 \<and> (0::nat) < 2
   \<and> 0 \<le> eg_steps \<lparr>eg_steps = 3, epsilon = 1\<rparr> \<and> 0 \<le> ts_steps \<lparr>ts_steps = 3\<rparr>
   \<and> EpsilonGreedyAgent_step \<lparr>eg_steps = 3, epsilon = 1\<rparr> demo_world
        = Inr (([1, 2], [0, 100, 0], [0, 50, 100 / 3]), demo_world\<lparr>np_pos := 9\<rparr>)
   \<and> sum_list [1, 2 :: real] = real_of_int (eg_steps \<lparr>eg_steps = 3, epsilon = 1\<rparr>)
   \<and> ThompsonSamplingAgent_loop \<lparr>ts_steps = 3\<rparr> demo_world =
       Inr (\<lparr>ts_count_of_arms_pulled = [1, 2], ts_rewards_obtained = [1, 0], failures = [0, 2],
             ts_cumulative_rewards = [100, 50, 100 / 3], total_rewards = [100, 0, 0]\<rparr>,
            demo_world\<lparr>np_pos := 3, py_pos := 6\<rparr>)
   \<and> sum_list [1, 2 :: real] = real_of_int (ts_steps \<lparr>ts_steps = 3\<rparr>)"
proof -
  have h: "rng_ok demo_world" "env_ok (base_environment demo_world)"
    "k_arms (base_environment demo_world) = 2" "(0::nat) < 2"
    "0 \<le> eg_steps \<lparr>eg_steps = 3, epsilon = 1\<rparr>" "0 \<le> ts_steps \<lparr>ts_steps = 3\<rparr>"
    using rng_demo env_demo by simp_all
  have eg: "EpsilonGreedyAgent_step \<lparr>eg_steps = 3, epsilon = 1\<rparr> demo_world
        = Inr (([1, 2], [0, 100, 0], [0, 50, 100 / 3]), demo_world\<lparr>np_pos := 9\<rparr>)"
    by (simp add: EpsilonGreedyAgent_step_def demo_explore_run)
  note c = pull_counts_add_up[OF h]
  from c[THEN conjunct1] eg
  have 1: "sum_list [1, 2 :: real] = real_of_int (eg_steps \<lparr>eg_steps = 3, epsilon = 1\<rparr>)"
    by auto
  from c[THEN conjunct2] demo_thompson_run
  have 2: "sum_list [1, 2 :: real] = real_of_int (ts_steps \<lparr>ts_steps = 3\<rparr>)"
    by auto
  from h eg 1 2 demo_thompson_run show ?thesis by blast
qed

text \<open>
  Claim C7. Two epsilon-greedy runs with \<^verbatim>\<open>epsilon = 0\<close> and the same number of arms, in
  worlds whose generators keep their promises. If the \<open>(arm, reward)\<close> histories of the two
  runs are the same, the runs end in the same locals, and the next selection is the same
  in both: it is \<^verbatim>\<open>argmax(q_values)\<close>, whatever the generators hold, since a uniform sample
  is never below 0.
\<close>

theorem eg_epsilon_zero_deterministic:
  assumes "rng_ok w1" "rng_ok w2"
    and "k_arms (base_environment w1) = k" "k_arms (base_environment w2) = k"
    and "epsilon eg = 0"
    and "EpsilonGreedyAgent_loop eg w1 = Inr (s1, w1')"
    and "EpsilonGreedyAgent_loop eg w2 = Inr (s2, w2')"
    and "eg_history (nat (eg_steps eg)) 0 k (EpsilonGreedyAgent_init_locals k) w1 =
         eg_history (nat (eg_steps eg)) 0 k (EpsilonGreedyAgent_init_locals k) w2"
  shows "s1 = s2
     \<and> map_sum fst fst (eg_select 0 k (q_values s1) w1')
         = map_sum fst fst (eg_select 0 k (q_values s2) w2')
     \<and> map_sum fst fst (eg_select 0 k (q_values s1) w1')
         = map_sum id id (np_argmax (q_values s1))"
proof -
  from assms(3-8) have "s1 = s2"
    using eg_history_determines_locals[of "py_range (eg_steps eg)" 0 k
        "EpsilonGreedyAgent_init_locals k" w1 s1 w1' w2 s2 w2']
    by (simp add: EpsilonGreedyAgent_loop_def length_py_range)
  moreover have "map_sum fst fst (eg_select 0 k q w) = map_sum id id (np_argmax q)"
    if "rng_ok w" for q w
    by (simp add: eg_select_zero[OF that] split: sum.split)
  ultimately show ?thesis
    using eg_loop_rng_ok[OF assms(6,1)] eg_loop_rng_ok[OF assms(7,2)] by simp
qed

text \<open>The two small worlds differ in their uniform samples and have the same
  history.\<close>

theorem eg_epsilon_zero_deterministic_witness:
  "rng_ok demo_world \<and> rng_ok demo_world2
   \<and> k_arms (base_environment demo_world) = 2 \<and> k_arms (base_environment demo_world2) = 2
   \<and> epsilon \<lparr>eg_steps = 3, epsilon = 0\<rparr> = 0
   \<and> EpsilonGreedyAgent_loop \<lparr>eg_steps = 3, epsilon = 0\<rparr> demo_world =
       Inr (\<lparr>q_values = [100, 0], rewards_obtained_per_arm = [300, 0],
             eg_count_of_arms_pulled = [3, 0], eg_rewards = [100, 100, 100],
             eg_cumulative_rewards = [100, 100, 100]\<rparr>, demo_world\<lparr>np_pos := 6\<rparr>)
   \<and> EpsilonGreedyAgent_loop \<lparr>eg_steps = 3, epsilon = 0\<rparr> demo_world2 =
       Inr (\<lparr>q_values = [100, 0], rewards_obtained_per_arm = [300, 0],
             eg_count_of_arms_pulled = [3, 0], eg_rewards = [100, 100, 100],
             eg_cumulative_rewards = [100, 100, 100]\<rparr>, demo_world2\<lparr>np_pos := 6\<rparr>)
   \<and> eg_history (nat (eg_steps \<lparr>eg_steps = 3, epsilon = 0\<rparr>)) 0 2
         (EpsilonGreedyAgent_init_locals 2) demo_world
       = eg_history (nat (eg_steps \<lparr>eg_steps = 3, epsilon = 0\<rparr>)) 0 2
         (EpsilonGreedyAgent_init_locals 2) demo_world2
   \<and> map_sum fst fst (eg_select 0 2 [100, 0] (demo_world\<lparr>np_pos := 6\<rparr>))
       = map_sum fst fst (eg_select 0 2 [100, 0] (demo_world2\<lparr>np_pos := 6\<rparr>))"
proof -
  have k2: "k_arms (base_environment demo_world2) = 2"
    by (simp add: demo_world2_def)
  have h: "eg_history (nat (eg_steps \<lparr>eg_steps = 3, epsilon = 0\<rparr>)) 0 2
         (EpsilonGreedyAgent_init_locals 2) demo_world
       = eg_history (nat (eg_steps \<lparr>eg_steps = 3, epsilon = 0\<rparr>)) 0 2
         (EpsilonGreedyAgent_init_locals 2) demo_world2"
    by (simp add: demo_history)
  have e: "epsilon \<lparr>eg_steps = 3, epsilon = 0\<rparr> = 0" by simp
  have k1: "k_arms (base_environment demo_world) = 2" by simp
  from eg_epsilon_zero_deterministic[OF rng_demo rng_demo2 k1 k2 e
      demo_greedy_run demo_greedy_run2 h]
  have "map_sum fst fst (eg_select 0 2 [100, 0] (demo_world\<lparr>np_pos := 6\<rparr>))
       = map_sum fst fst (eg_select 0 2 [100, 0] (demo_world2\<lparr>np_pos := 6\<rparr>))"
    by simp
  with rng_demo rng_demo2 k1 k2 e demo_greedy_run demo_greedy_run2 h show ?thesis by blast
qed

text \<open>
  Claim C8. The claim is that every run returns the pull counts, the per-step rewards and
  the running average of the rewards. Three steps in the small world: the Thompson run
  collects the rewards 100, 0, 0 in \<^verbatim>\<open>total_rewards\<close> and returns, in second place, the
  per-arm success counts \<open>[1, 0]\<close>; the random run returns the constant 60 where the running
  average of its rewards is 100; the epsilon-greedy run returns what the claim says.
\<close>

theorem thompson_returns_success_counts:
  "ThompsonSamplingAgent_loop \<lparr>ts_steps = 3\<rparr> demo_world =
     Inr (\<lparr>ts_count_of_arms_pulled = [1, 2], ts_rewards_obtained = [1, 0], failures = [0, 2],
           ts_cumulative_rewards = [100, 50, 100 / 3], total_rewards = [100, 0, 0]\<rparr>,
          demo_world\<lparr>np_pos := 3, py_pos := 6\<rparr>)
   \<and> ThompsonSamplingAgent_step \<lparr>ts_steps = 3\<rparr> demo_world =
     Inr (([1, 2], [1, 0], [100, 50, 100 / 3]), demo_world\<lparr>np_pos := 3, py_pos := 6\<rparr>)
   \<and> RandomAgent_step \<lparr>ra_steps = 3\<rparr> demo_world =
     Inr (([3, 0], [100, 100, 100], [60, 60, 60]), demo_world\<lparr>np_pos := 6\<rparr>)
   \<and> EpsilonGreedyAgent_step \<lparr>eg_steps = 3, epsilon = 1\<rparr> demo_world =
     Inr (([1, 2], [0, 100, 0], [0, 50, 100 / 3]), demo_world\<lparr>np_pos := 9\<rparr>)"
  by (simp add: ThompsonSamplingAgent_step_def demo_thompson_run demo_random_step
      EpsilonGreedyAgent_step_def demo_explore_run)

text \<open>
  Claim C9. Neither \<^verbatim>\<open>pull\<close> nor the run of any of the three agents writes to the
  environment: in the world they leave behind, whether they return or raise, the
  environment (its two vectors and \<^verbatim>\<open>k_arms\<close>) is the one they started with.
\<close>

theorem environment_is_never_written:
  "base_environment (final_world (pull arm w)) = base_environment w \<and>
   base_environment (final_world (RandomAgent_step ra w)) = base_environment w \<and>
   base_environment (final_world (EpsilonGreedyAgent_step eg w)) = base_environment w \<and>
   base_environment (final_world (ThompsonSamplingAgent_step ts w)) = base_environment w"
  using fixed_base_environment[OF pull_fixed, of arm w]
    fixed_base_environment[OF ra_step_fixed, of ra w]
    fixed_base_environment[OF eg_step_fixed, of eg w]
    fixed_base_environment[OF ts_step_fixed, of ts w]
  by simp

text \<open>
  Claim C10. The claim is that \<^verbatim>\<open>pull(a)\<close> with \<open>-k_arms \<le> a < 0\<close> does not raise and
  behaves like \<^verbatim>\<open>pull(k_arms + a)\<close>. That needs the length invariant, which the constructor
  does not establish. In an environment that satisfies it, \<^verbatim>\<open>pull(a)\<close> with
  \<open>-k_arms \<le> a < 0\<close> does not raise: it is \<^verbatim>\<open>pull(k_arms + a)\<close>, which pays
  \<^verbatim>\<open>rewards[k_arms + a]\<close> when the sample is below \<^verbatim>\<open>reward_probabilities[k_arms + a]\<close> and
  \<open>0\<close> otherwise.
\<close>

theorem pull_negative_arm:
  assumes "env_ok (base_environment w)"
    and "- int (k_arms (base_environment w)) \<le> a" and "a < 0"
  shows "pull a w = pull (int (k_arms (base_environment w)) + a) w \<and>
     pull a w =
     Inr (if np_random_tape w (np_pos w)
             < reward_probabilities (base_environment w) ! nat (int (k_arms (base_environment w)) + a)
          then rewards (base_environment w) ! nat (int (k_arms (base_environment w)) + a) else 0,
          w\<lparr>np_pos := Suc (np_pos w)\<rparr>)"
proof -
  let ?e = "base_environment w"
  let ?k = "k_arms ?e"
  have len: "length (reward_probabilities ?e) = ?k" "length (rewards ?e) = ?k"
    using assms(1) by (simp_all add: env_ok_def)
  have p: "getitem (reward_probabilities ?e) a = getitem (reward_probabilities ?e) (int ?k + a)"
    using assms(2,3) len by (simp add: getitem_def py_index_neg)
  have r: "getitem (rewards ?e) a = getitem (rewards ?e) (int ?k + a)"
    using assms(2,3) len by (simp add: getitem_def py_index_neg)
  have eq: "pull a w = pull (int ?k + a) w"
    using p r by (auto simp add: pull_def np_random_random_def split: sum.split)
  have "nat (int ?k + a) < ?k" using assms(2,3) by simp
  from pull_nat[OF assms(1) this] eq assms(2) show ?thesis by simp
qed

theorem pull_negative_arm_witness:
  "env_ok (base_environment demo_world)
   \<and> - int (k_arms (base_environment demo_world)) \<le> - 2 \<and> (- 2 :: int) < 0
   \<and> pull (- 2) demo_world = pull 0 demo_world
   \<and> pull (- 2) demo_world = Inr (100, demo_world\<lparr>np_pos := Suc 0\<rparr>)"
proof -
  have e: "env_ok (base_environment demo_world)"
    using env_demo by simp
  have k: "- int (k_arms (base_environment demo_world)) \<le> - 2"
    by simp
  have "pull (- 2) demo_world = pull 0 demo_world"
    using pull_negative_arm[OF e k, THEN conjunct1] by simp
  moreover have "pull (- 2) demo_world = Inr (100, demo_world\<lparr>np_pos := Suc 0\<rparr>)"
    using pull_negative_arm[OF e k, THEN conjunct2] by simp
  moreover have "(- 2 :: int) < 0" by simp
  ultimately show ?thesis using e k by blast
qed

text \<open>With one probability for two payouts, \<^verbatim>\<open>pull(-2)\<close> raises \<^verbatim>\<open>IndexError\<close>. With
  three probabilities for two payouts, \<^verbatim>\<open>pull(-1)\<close> reads the third probability and pays
  20, while \<^verbatim>\<open>pull(k_arms - 1)\<close> reads the second and pays 0.\<close>

theorem pull_negative_arm_counterexample:
  "- int (k_arms (base_environment short_probs_world)) \<le> - 2 \<and> (- 2 :: int) < 0
   \<and> pull (- 2) short_probs_world = Inl (IndexError, short_probs_world\<lparr>np_pos := Suc 0\<rparr>)
   \<and> - int (k_arms (base_environment long_probs_world)) \<le> - 1 \<and> (- 1 :: int) < 0
   \<and> pull (- 1) long_probs_world = Inr (20, long_probs_world\<lparr>np_pos := Suc 0\<rparr>)
   \<and> pull (int (k_arms (base_environment long_probs_world)) + - 1) long_probs_world
        = Inr (0, long_probs_world\<lparr>np_pos := Suc 0\<rparr>)"
  by (simp add: short_probs_world_def long_probs_world_def SlotMachineEnvironment_init_def
      pull_def np_random_random_def getitem_def py_index_def)

end
